theory Spec2Isabelle
  imports Complex_Main "HOL-Library.Multiset" "HOL-Library.Log_Nat"
begin

section \<open>JavaScript numbers\<close>

text \<open>
  The component computes with JavaScript numbers: IEEE 754 doubles. A finite double is
  kept as the rational it denotes (the sign of zero is not kept); every arithmetic result
  is rounded to the nearest double, ties to the even significand, with the subnormal
  range below \<open>2 powi - 1022\<close> and overflow to an infinity from \<open>2 powi 1024\<close> on.
\<close>

datatype number = Num rat | PosInf | NegInf | NaN

definition round_half_even :: "rat \<Rightarrow> int" where
  "round_half_even x =
     (let f = \<lfloor>x\<rfloor>; d = x - of_int f
      in if d < 1 / 2 then f else if 1 / 2 < d then f + 1
         else if even f then f else f + 1)"

text \<open>The floor of the binary logarithm of a positive rational.\<close>

definition binary_exponent :: "rat \<Rightarrow> int" where
  "binary_exponent x =
     (let (a, b) = quotient_of x; e = bitlen a - bitlen b
      in if power_int 2 e \<le> x then e else e - 1)"

text \<open>
  The double nearest to a rational: 53 significant bits, the exponent clamped at the
  subnormal range. A significand that rounds up to \<open>2 ^ 53\<close> at the largest exponent
  has reached \<open>2 powi 1024\<close>, which overflows.
\<close>

definition double_of :: "rat \<Rightarrow> number" where
  "double_of x =
     (if x = 0 then Num 0
      else let e = max (binary_exponent \<bar>x\<bar>) (- 1022);
               m = round_half_even (x / power_int 2 (e - 52))
           in if 1023 < e \<or> (e = 1023 \<and> \<bar>m\<bar> = 2 ^ 53)
              then (if 0 < x then PosInf else NegInf)
              else Num (of_int m * power_int 2 (e - 52)))"

text \<open>The operator \<open>+\<close> on two numbers.\<close>

fun num_add :: "number \<Rightarrow> number \<Rightarrow> number" where
  "num_add (Num x) (Num y) = double_of (x + y)"
| "num_add NaN _ = NaN"
| "num_add _ NaN = NaN"
| "num_add PosInf NegInf = NaN"
| "num_add NegInf PosInf = NaN"
| "num_add PosInf _ = PosInf"
| "num_add _ PosInf = PosInf"
| "num_add NegInf _ = NegInf"
| "num_add _ NegInf = NegInf"

text \<open>\<open>Number(v)\<close> applied to a value that is a number already.\<close>

definition Number :: "number \<Rightarrow> number" where
  "Number v = v"

text \<open>\<open>Number.isInteger\<close>, and the integer a number that passes it denotes.\<close>

fun isInteger :: "number \<Rightarrow> bool" where
  "isInteger (Num x) = (of_int \<lfloor>x\<rfloor> = x)"
| "isInteger _ = False"

fun integer_value :: "number \<Rightarrow> int" where
  "integer_value (Num x) = \<lfloor>x\<rfloor>"
| "integer_value _ = 0"

text \<open>A list of numbers added up from \<open>0\<close> with \<open>+\<close>, left to right.\<close>

definition sum_numbers :: "number list \<Rightarrow> number" where
  "sum_numbers xs = foldl num_add (Num 0) xs"

subsection \<open>Strings, \<open>parseFloat\<close> and \<open>String.prototype.trim\<close>\<close>

text \<open>
  A string the component reads character by character (the two inputs, a description) is
  the list of its UTF-16 code units. Identifiers and names, which are only compared, stay
  \<open>string\<close>s; \<open>utf16\<close> gives the code units of an ASCII literal.
\<close>

type_synonym js_string = "nat list"

definition utf16 :: "string \<Rightarrow> js_string" where
  "utf16 s = map of_char s"

text \<open>
  White space and line terminators: tab, line feed, vertical tab, form feed, carriage
  return, space, no-break space, U+1680, U+2000 to U+200A, the line and paragraph
  separators, U+202F, U+205F, U+3000 and the byte order mark.
\<close>

definition is_white_space :: "nat \<Rightarrow> bool" where
  "is_white_space c =
     (c \<in> set [0x09, 0x0A, 0x0B, 0x0C, 0x0D, 0x20, 0xA0, 0x1680, 0x2000, 0x2001, 0x2002,
               0x2003, 0x2004, 0x2005, 0x2006, 0x2007, 0x2008, 0x2009, 0x200A, 0x2028, 0x2029,
               0x202F, 0x205F, 0x3000, 0xFEFF])"

definition trim :: "js_string \<Rightarrow> js_string" where
  "trim s = rev (dropWhile is_white_space (rev (dropWhile is_white_space s)))"

definition is_digit :: "nat \<Rightarrow> bool" where
  "is_digit c = (0x30 \<le> c \<and> c \<le> 0x39)"

definition decimal_value :: "js_string \<Rightarrow> int" where
  "decimal_value ds = foldl (\<lambda>acc c. 10 * acc + (int c - 0x30)) 0 ds"

text \<open>
  The sign in front of a literal (\<open>-\<close> is \<open>0x2D\<close>, \<open>+\<close> is \<open>0x2B\<close>): whether it is negative,
  and the rest.
\<close>

fun take_sign :: "js_string \<Rightarrow> bool \<times> js_string" where
  "take_sign [] = (False, [])"
| "take_sign (c # r) =
     (if c = 0x2D then (True, r) else if c = 0x2B then (False, r) else (False, c # r))"

text \<open>
  The exponent part that follows a mantissa: \<open>e\<close> (\<open>0x65\<close>) or \<open>E\<close> (\<open>0x45\<close>), an optional
  sign and at least one digit; anything else is no exponent part and is ignored.
\<close>

fun exponent_part :: "js_string \<Rightarrow> int" where
  "exponent_part [] = 0"
| "exponent_part (c # r) =
     (if c = 0x65 \<or> c = 0x45
      then (let (neg, r1) = take_sign r; ds = takeWhile is_digit r1
            in if ds = [] then 0 else if neg then - decimal_value ds else decimal_value ds)
      else 0)"

text \<open>
  \<open>parseFloat\<close>: leading white space is skipped, the longest prefix that is a decimal
  literal is read and what follows it is ignored; no such prefix gives \<open>NaN\<close>. The point
  is \<open>0x2E\<close>.
\<close>

definition parseFloat :: "js_string \<Rightarrow> number" where
  "parseFloat s =
     (let (neg, t) = take_sign (dropWhile is_white_space s)
      in if take 8 t = utf16 ''Infinity'' then (if neg then NegInf else PosInf)
         else
           let ip = takeWhile is_digit t;
               r1 = dropWhile is_digit t;
               fp = (case r1 of [] \<Rightarrow> [] | c # r \<Rightarrow> if c = 0x2E then takeWhile is_digit r else []);
               r2 = (case r1 of [] \<Rightarrow> [] | c # r \<Rightarrow> if c = 0x2E then dropWhile is_digit r else r1)
           in if ip = [] \<and> fp = [] then NaN
              else
                let v = of_int (decimal_value (ip @ fp))
                          * power_int 10 (exponent_part r2 - int (length fp))
                in double_of (if neg then - v else v))"

subsection \<open>The value of a number field\<close>

text \<open>
  The amount is typed into an \<open>input\<close> of type \<open>number\<close>. The value such a field reports is
  a valid floating-point number or, for anything else, the empty string: an optional \<open>-\<close>;
  digits, or a point and digits, or both; optionally an exponent, \<open>e\<close> or \<open>E\<close>, an optional
  sign and digits.
\<close>

definition valid_floating_point_number :: "js_string \<Rightarrow> bool" where
  "valid_floating_point_number s =
     (let t = (case s of [] \<Rightarrow> [] | c # r \<Rightarrow> if c = 0x2D then r else s);
          ip = takeWhile is_digit t;
          r1 = dropWhile is_digit t;
          mantissa = (case r1 of [] \<Rightarrow> ip \<noteq> []
                      | c # r \<Rightarrow> if c = 0x2E then takeWhile is_digit r \<noteq> [] else ip \<noteq> []);
          r2 = (case r1 of [] \<Rightarrow> [] | c # r \<Rightarrow> if c = 0x2E then dropWhile is_digit r else r1)
      in mantissa
         \<and> (case r2 of [] \<Rightarrow> True
             | c # r \<Rightarrow>
                (c = 0x65 \<or> c = 0x45)
                \<and> (let ds = (case r of [] \<Rightarrow> []
                              | d # r' \<Rightarrow> if d = 0x2D \<or> d = 0x2B then r' else r)
                   in ds \<noteq> [] \<and> list_all is_digit ds)))"

definition number_input_value :: "js_string \<Rightarrow> js_string" where
  "number_input_value s = (if valid_floating_point_number s then s else [])"

section \<open>The schema: tables, constraints and row-level policies\<close>

type_synonym uuid = string

text \<open>A \<open>timestamptz\<close> is a reading of the server's clock.\<close>

type_synonym timestamptz = nat

record profile =
  profile_id :: uuid
  name :: string
  profile_created_at :: timestamptz

text \<open>
  A row of \<open>savings\<close>. The amount is a \<open>numeric\<close> (an exact rational) in the store and a
  JavaScript number in the component, so the record leaves its type open.
\<close>

record 'n saving =
  saving_id :: uuid
  user_id :: uuid
  amount :: 'n
  description :: js_string
  created_at :: timestamptz

text \<open>\<open>auth_users\<close> holds the ids of \<open>auth.users\<close>, which the auth provider owns.\<close>

record database =
  auth_users :: "uuid list"
  profiles_table :: "profile list"
  savings_table :: "rat saving list"

definition empty_database :: database where
  "empty_database = \<lparr>auth_users = [], profiles_table = [], savings_table = []\<rparr>"

datatype pg_error =
  Rls_violation | Not_null_violation | Check_violation | Unique_violation
  | Foreign_key_violation

subsection \<open>The policies\<close>

text \<open>
  Each policy is a predicate of \<open>auth.uid()\<close> and the row. All of them are granted
  \<open>TO authenticated\<close>: with row-level security enabled and no policy for the anonymous
  role, a caller without an identity passes none.
\<close>

definition view_all_profiles :: "uuid \<Rightarrow> profile \<Rightarrow> bool" where
  "view_all_profiles uid row = True"

definition update_own_profile :: "uuid \<Rightarrow> profile \<Rightarrow> bool" where
  "update_own_profile uid row = (uid = profile_id row)"

definition insert_own_profile :: "uuid \<Rightarrow> profile \<Rightarrow> bool" where
  "insert_own_profile uid row = (uid = profile_id row)"

definition view_all_savings :: "uuid \<Rightarrow> rat saving \<Rightarrow> bool" where
  "view_all_savings uid row = True"

definition insert_own_savings :: "uuid \<Rightarrow> rat saving \<Rightarrow> bool" where
  "insert_own_savings uid row = (uid = user_id row)"

definition update_own_savings :: "uuid \<Rightarrow> rat saving \<Rightarrow> bool" where
  "update_own_savings uid row = (uid = user_id row)"

definition delete_own_savings :: "uuid \<Rightarrow> rat saving \<Rightarrow> bool" where
  "delete_own_savings uid row = (uid = user_id row)"

definition permits :: "(uuid \<Rightarrow> 'r \<Rightarrow> bool) \<Rightarrow> uuid option \<Rightarrow> 'r \<Rightarrow> bool" where
  "permits policy caller row = (case caller of None \<Rightarrow> False | Some uid \<Rightarrow> policy uid row)"

subsection \<open>Statements on \<open>savings\<close>\<close>

definition select_savings :: "uuid option \<Rightarrow> database \<Rightarrow> rat saving list" where
  "select_savings caller d = filter (permits view_all_savings caller) (savings_table d)"

text \<open>The columns an \<open>INSERT\<close> gives; \<open>None\<close> is a column left out.\<close>

record saving_values =
  v_saving_id :: "uuid option"
  v_user_id :: "uuid option"
  v_amount :: "rat option"
  v_description :: "js_string option"
  v_created_at :: "timestamptz option"

text \<open>
  \<open>INSERT INTO savings\<close>: the defaults (\<open>gen_random_uuid()\<close>, \<open>''\<close>, \<open>now()\<close>) fill the
  columns left out, \<open>user_id\<close> and \<open>amount\<close> have none. The row must pass the insert
  policy (a missing \<open>user_id\<close> equals no \<open>auth.uid()\<close>), \<open>NOT NULL\<close>,
  \<open>CHECK (amount > 0)\<close>, the primary key and the foreign key to \<open>profiles\<close>; a statement
  that fails changes nothing.
\<close>

definition insert_saving ::
  "uuid option \<Rightarrow> uuid \<Rightarrow> timestamptz \<Rightarrow> saving_values \<Rightarrow> database \<Rightarrow> pg_error + database" where
  "insert_saving caller gen_random_uuid now v d =
     (case v_user_id v of
        None \<Rightarrow> Inl Rls_violation
      | Some u \<Rightarrow>
         (case v_amount v of
            None \<Rightarrow> if caller = Some u then Inl Not_null_violation else Inl Rls_violation
          | Some a \<Rightarrow>
             (let row = \<lparr>saving_id = (case v_saving_id v of None \<Rightarrow> gen_random_uuid | Some i \<Rightarrow> i),
                         user_id = u, amount = a,
                         description = (case v_description v of None \<Rightarrow> [] | Some t \<Rightarrow> t),
                         created_at = (case v_created_at v of None \<Rightarrow> now | Some t \<Rightarrow> t)\<rparr>
              in if \<not> permits insert_own_savings caller row then Inl Rls_violation
                 else if \<not> 0 < amount row then Inl Check_violation
                 else if saving_id row \<in> set (map saving_id (savings_table d))
                   then Inl Unique_violation
                 else if user_id row \<notin> set (map profile_id (profiles_table d))
                   then Inl Foreign_key_violation
                 else Inr (d\<lparr>savings_table := savings_table d @ [row]\<rparr>))))"

text \<open>The \<open>SET\<close> clause of an \<open>UPDATE\<close>; \<open>None\<close> is a column it does not mention.\<close>

record saving_patch =
  set_saving_id :: "uuid option"
  set_user_id :: "uuid option"
  set_amount :: "rat option"
  set_description :: "js_string option"
  set_created_at :: "timestamptz option"

definition apply_saving_patch :: "saving_patch \<Rightarrow> rat saving \<Rightarrow> rat saving" where
  "apply_saving_patch p r =
     \<lparr>saving_id = (case set_saving_id p of None \<Rightarrow> saving_id r | Some x \<Rightarrow> x),
      user_id = (case set_user_id p of None \<Rightarrow> user_id r | Some x \<Rightarrow> x),
      amount = (case set_amount p of None \<Rightarrow> amount r | Some x \<Rightarrow> x),
      description = (case set_description p of None \<Rightarrow> description r | Some x \<Rightarrow> x),
      created_at = (case set_created_at p of None \<Rightarrow> created_at r | Some x \<Rightarrow> x)\<rparr>"

text \<open>
  \<open>UPDATE savings SET ... WHERE cond\<close>: the rows that satisfy the condition and the
  policy's \<open>USING\<close> are rewritten; each new row must pass \<open>WITH CHECK\<close> and the
  constraints, or the whole statement fails.
\<close>

definition update_savings ::
  "uuid option \<Rightarrow> (rat saving \<Rightarrow> bool) \<Rightarrow> saving_patch \<Rightarrow> database \<Rightarrow> pg_error + database" where
  "update_savings caller cond p d =
     (let hit = (\<lambda>r. cond r \<and> permits update_own_savings caller r);
          new_rows = map (apply_saving_patch p) (filter hit (savings_table d));
          rows' = map (\<lambda>r. if hit r then apply_saving_patch p r else r) (savings_table d)
      in if list_ex (\<lambda>r. \<not> permits update_own_savings caller r) new_rows then Inl Rls_violation
         else if list_ex (\<lambda>r. \<not> 0 < amount r) new_rows then Inl Check_violation
         else if \<not> distinct (map saving_id rows') then Inl Unique_violation
         else if list_ex (\<lambda>r. user_id r \<notin> set (map profile_id (profiles_table d))) new_rows
           then Inl Foreign_key_violation
         else Inr (d\<lparr>savings_table := rows'\<rparr>))"

text \<open>
  \<open>DELETE FROM savings WHERE cond\<close>: the rows that satisfy the condition and the
  policy's \<open>USING\<close> go; a row the policy hides is not touched and raises nothing.
\<close>

definition delete_savings :: "uuid option \<Rightarrow> (rat saving \<Rightarrow> bool) \<Rightarrow> database \<Rightarrow> database" where
  "delete_savings caller cond d =
     d\<lparr>savings_table :=
         filter (\<lambda>r. \<not> (cond r \<and> permits delete_own_savings caller r)) (savings_table d)\<rparr>"

subsection \<open>Statements on \<open>profiles\<close>\<close>

definition select_profiles :: "uuid option \<Rightarrow> database \<Rightarrow> profile list" where
  "select_profiles caller d = filter (permits view_all_profiles caller) (profiles_table d)"

record profile_values =
  v_profile_id :: "uuid option"
  v_name :: "string option"
  v_profile_created_at :: "timestamptz option"

definition insert_profile ::
  "uuid option \<Rightarrow> timestamptz \<Rightarrow> profile_values \<Rightarrow> database \<Rightarrow> pg_error + database" where
  "insert_profile caller now v d =
     (case v_profile_id v of
        None \<Rightarrow> Inl Rls_violation
      | Some i \<Rightarrow>
         (case v_name v of
            None \<Rightarrow> if caller = Some i then Inl Not_null_violation else Inl Rls_violation
          | Some n \<Rightarrow>
             (let row = \<lparr>profile_id = i, name = n,
                         profile_created_at =
                           (case v_profile_created_at v of None \<Rightarrow> now | Some t \<Rightarrow> t)\<rparr>
              in if \<not> permits insert_own_profile caller row then Inl Rls_violation
                 else if profile_id row \<in> set (map profile_id (profiles_table d))
                   then Inl Unique_violation
                 else if profile_id row \<notin> set (auth_users d) then Inl Foreign_key_violation
                 else Inr (d\<lparr>profiles_table := profiles_table d @ [row]\<rparr>))))"

record profile_patch =
  set_profile_id :: "uuid option"
  set_name :: "string option"
  set_profile_created_at :: "timestamptz option"

definition apply_profile_patch :: "profile_patch \<Rightarrow> profile \<Rightarrow> profile" where
  "apply_profile_patch p r =
     \<lparr>profile_id = (case set_profile_id p of None \<Rightarrow> profile_id r | Some x \<Rightarrow> x),
      name = (case set_name p of None \<Rightarrow> name r | Some x \<Rightarrow> x),
      profile_created_at =
        (case set_profile_created_at p of None \<Rightarrow> profile_created_at r | Some x \<Rightarrow> x)\<rparr>"

text \<open>
  \<open>UPDATE profiles\<close>. The foreign key of \<open>savings\<close> has no \<open>ON UPDATE\<close> action, so a
  statement that leaves a saving without its profile fails.
\<close>

definition update_profiles ::
  "uuid option \<Rightarrow> (profile \<Rightarrow> bool) \<Rightarrow> profile_patch \<Rightarrow> database \<Rightarrow> pg_error + database" where
  "update_profiles caller cond p d =
     (let hit = (\<lambda>r. cond r \<and> permits update_own_profile caller r);
          new_rows = map (apply_profile_patch p) (filter hit (profiles_table d));
          rows' = map (\<lambda>r. if hit r then apply_profile_patch p r else r) (profiles_table d)
      in if list_ex (\<lambda>r. \<not> permits update_own_profile caller r) new_rows then Inl Rls_violation
         else if \<not> distinct (map profile_id rows') then Inl Unique_violation
         else if list_ex (\<lambda>r. profile_id r \<notin> set (auth_users d)) new_rows
                 \<or> list_ex (\<lambda>s. user_id s \<notin> set (map profile_id rows')) (savings_table d)
           then Inl Foreign_key_violation
         else Inr (d\<lparr>profiles_table := rows'\<rparr>))"

text \<open>\<open>profiles\<close> has no \<open>DELETE\<close> policy: the statement sees no row, for any caller.\<close>

definition delete_profiles :: "uuid option \<Rightarrow> (profile \<Rightarrow> bool) \<Rightarrow> database \<Rightarrow> database" where
  "delete_profiles caller cond d = d"

subsection \<open>The auth provider\<close>

definition create_auth_user :: "uuid \<Rightarrow> database \<Rightarrow> database" where
  "create_auth_user u d =
     (if u \<in> set (auth_users d) then d else d\<lparr>auth_users := auth_users d @ [u]\<rparr>)"

text \<open>
  Removing an account: \<open>ON DELETE CASCADE\<close> takes its profile, and with the profile its
  savings.
\<close>

definition delete_auth_user :: "uuid \<Rightarrow> database \<Rightarrow> database" where
  "delete_auth_user u d =
     d\<lparr>auth_users := filter (\<lambda>x. x \<noteq> u) (auth_users d),
       profiles_table := filter (\<lambda>r. profile_id r \<noteq> u) (profiles_table d),
       savings_table := filter (\<lambda>r. user_id r \<noteq> u) (savings_table d)\<rparr>"

subsection \<open>Histories of the store\<close>

datatype statement =
  Insert_saving uuid timestamptz saving_values
  | Update_savings "rat saving \<Rightarrow> bool" saving_patch
  | Delete_savings "rat saving \<Rightarrow> bool"
  | Insert_profile timestamptz profile_values
  | Update_profiles "profile \<Rightarrow> bool" profile_patch
  | Delete_profiles "profile \<Rightarrow> bool"

fun execute :: "uuid option \<Rightarrow> statement \<Rightarrow> database \<Rightarrow> pg_error + database" where
  "execute caller (Insert_saving g t v) d = insert_saving caller g t v d"
| "execute caller (Update_savings c p) d = update_savings caller c p d"
| "execute caller (Delete_savings c) d = Inr (delete_savings caller c d)"
| "execute caller (Insert_profile t v) d = insert_profile caller t v d"
| "execute caller (Update_profiles c p) d = update_profiles caller c p d"
| "execute caller (Delete_profiles c) d = Inr (delete_profiles caller c d)"

datatype event =
  Statement "uuid option" statement
  | Sign_up uuid
  | Account_removed uuid

fun step :: "database \<Rightarrow> event \<Rightarrow> database" where
  "step d (Statement caller s) = (case execute caller s d of Inl e \<Rightarrow> d | Inr d' \<Rightarrow> d')"
| "step d (Sign_up u) = create_auth_user u d"
| "step d (Account_removed u) = delete_auth_user u d"

text \<open>What the constraints of the schema promise of every state.\<close>

definition consistent :: "database \<Rightarrow> bool" where
  "consistent d =
     (list_all (\<lambda>r. 0 < amount r \<and> user_id r \<in> set (map profile_id (profiles_table d)))
        (savings_table d)
      \<and> list_all (\<lambda>r. profile_id r \<in> set (auth_users d)) (profiles_table d)
      \<and> distinct (map saving_id (savings_table d))
      \<and> distinct (map profile_id (profiles_table d)))"

section \<open>The Supabase client\<close>

text \<open>
  A call of the client library settles in one of two ways: the promise resolves to an
  object with the fields \<open>data\<close> and \<open>error\<close> (\<open>data\<close> is null on an error, and also
  when \<open>maybeSingle\<close> finds no row), or the promise rejects, which an \<open>await\<close> throws.
\<close>

datatype api_error = Postgres pg_error | Multiple_rows | Fetch_failed | Auth_session_missing

datatype 'a outcome = Response "'a option" "api_error option" | Throws api_error

text \<open>The body of the insert the component sends: \<open>user_id\<close>, \<open>amount\<close>, \<open>description\<close>.\<close>

record insert_body =
  new_user_id :: uuid
  new_amount :: number
  new_description :: js_string

text \<open>
  The calls the component makes, over whatever they act on (\<open>'w\<close>): \<open>auth.getUser()\<close>,
  whose data is the user's id or null, the three reads of \<open>loadData\<close>, the insert and the
  delete.
\<close>

record 'w client =
  auth_getUser :: "'w \<Rightarrow> uuid outcome \<times> 'w"
  profiles_select_order :: "'w \<Rightarrow> profile list outcome \<times> 'w"
  profiles_select_eq_id_maybeSingle :: "uuid \<Rightarrow> 'w \<Rightarrow> profile outcome \<times> 'w"
  savings_select_order_desc :: "'w \<Rightarrow> number saving list outcome \<times> 'w"
  savings_insert :: "insert_body \<Rightarrow> 'w \<Rightarrow> unit outcome \<times> 'w"
  savings_delete_eq_id :: "uuid \<Rightarrow> 'w \<Rightarrow> unit outcome \<times> 'w"

subsection \<open>The client in front of the store\<close>

datatype request =
  Select_profiles_order_created_at
  | Select_profiles_eq_id_maybeSingle uuid
  | Select_savings_order_created_at_desc
  | Insert_savings insert_body
  | Delete_savings_eq_id uuid

text \<open>
  What the calls act on: the session (its \<open>auth.uid()\<close>, or none), the database, the
  server's clock and its supply of random ids, and the requests received so far.
\<close>

record backend =
  session :: "uuid option"
  db :: database
  clock :: timestamptz
  uuid_supply :: "timestamptz \<Rightarrow> uuid"
  requests :: "request list"

text \<open>
  JSON carries a \<open>numeric\<close> as a number, which the component reads as the nearest double;
  \<open>JSON.stringify\<close> writes \<open>NaN\<close> and the infinities as null. A finite double is sent as
  the value it denotes (the library prints its shortest decimal, which has the same sign
  and reads back as the same double).
\<close>

definition saving_of_row :: "rat saving \<Rightarrow> number saving" where
  "saving_of_row r =
     \<lparr>saving_id = saving_id r, user_id = user_id r, amount = double_of (amount r),
      description = description r, created_at = created_at r\<rparr>"

fun numeric_of_number :: "number \<Rightarrow> rat option" where
  "numeric_of_number (Num x) = Some x"
| "numeric_of_number _ = None"

definition values_of_body :: "insert_body \<Rightarrow> saving_values" where
  "values_of_body b =
     \<lparr>v_saving_id = None, v_user_id = Some (new_user_id b),
      v_amount = numeric_of_number (new_amount b),
      v_description = Some (new_description b), v_created_at = None\<rparr>"

definition received :: "request \<Rightarrow> backend \<Rightarrow> backend" where
  "received r w = w\<lparr>requests := requests w @ [r]\<rparr>"

text \<open>
  \<open>maybeSingle\<close>: no row is null data, one row is that row, more rows are an error.
\<close>

fun maybeSingle :: "'a list \<Rightarrow> 'a outcome" where
  "maybeSingle [] = Response None None"
| "maybeSingle [x] = Response (Some x) None"
| "maybeSingle (x # y # zs) = Response None (Some Multiple_rows)"

definition supabase :: "backend client" where
  "supabase =
     \<lparr>auth_getUser = (\<lambda>w.
        (case session w of
           None \<Rightarrow> (Response None (Some Auth_session_missing), w)
         | Some u \<Rightarrow> (Response (Some u) None, w))),
      profiles_select_order = (\<lambda>w.
        (Response (Some (sort_key profile_created_at (select_profiles (session w) (db w)))) None,
         received Select_profiles_order_created_at w)),
      profiles_select_eq_id_maybeSingle = (\<lambda>i w.
        (maybeSingle (filter (\<lambda>r. profile_id r = i) (select_profiles (session w) (db w))),
         received (Select_profiles_eq_id_maybeSingle i) w)),
      savings_select_order_desc = (\<lambda>w.
        (Response
           (Some (map saving_of_row (rev (sort_key created_at (select_savings (session w) (db w))))))
           None,
         received Select_savings_order_created_at_desc w)),
      savings_insert = (\<lambda>b w.
        (case insert_saving (session w) (uuid_supply w (clock w)) (clock w) (values_of_body b) (db w) of
           Inl e \<Rightarrow> (Response None (Some (Postgres e)), received (Insert_savings b) w)
         | Inr d \<Rightarrow>
            (Response None None,
             received (Insert_savings b) (w\<lparr>db := d, clock := Suc (clock w)\<rparr>)))),
      savings_delete_eq_id = (\<lambda>i w.
        (Response None None,
         received (Delete_savings_eq_id i)
           (w\<lparr>db := delete_savings (session w) (\<lambda>r. saving_id r = i) (db w)\<rparr>)))\<rparr>"

section \<open>The component \<open>SavingsTracker\<close>\<close>

text \<open>
  The state of the component: its six \<open>useState\<close> cells (the form's \<open>amount\<close> and
  \<open>description\<close> are \<open>amount_input\<close> and \<open>description_input\<close> here) and what it has
  written with \<open>console.error\<close>.
\<close>

record tracker =
  currentUser :: "profile option"
  profiles :: "profile list"
  savings :: "number saving list"
  amount_input :: js_string
  description_input :: js_string
  loading :: bool
  console :: "(string \<times> api_error) list"

definition initial_tracker :: tracker where
  "initial_tracker =
     \<lparr>currentUser = None, profiles = [], savings = [], amount_input = [],
      description_input = [], loading = True, console = []\<rparr>"

definition console_error :: "string \<Rightarrow> api_error \<Rightarrow> tracker \<Rightarrow> tracker" where
  "console_error label e st = st\<lparr>console := console st @ [(label, e)]\<rparr>"

text \<open>
  The three conditional setters at the end of \<open>loadData\<close>'s \<open>try\<close> block: a cell is
  written only with data that is not null (an empty array is not null).
\<close>

definition store_results ::
  "profile list option \<Rightarrow> profile option \<Rightarrow> number saving list option \<Rightarrow> tracker \<Rightarrow> tracker" where
  "store_results profilesData currentProfileData savingsData st =
     (let st1 = (case profilesData of None \<Rightarrow> st | Some d \<Rightarrow> st\<lparr>profiles := d\<rparr>);
          st2 = (case currentProfileData of None \<Rightarrow> st1 | Some d \<Rightarrow> st1\<lparr>currentUser := Some d\<rparr>)
      in (case savingsData of None \<Rightarrow> st2 | Some d \<Rightarrow> st2\<lparr>savings := d\<rparr>))"

text \<open>
  The \<open>try\<close> block of \<open>loadData\<close>: \<open>Inl\<close> is what an \<open>await\<close> threw. Only \<open>data\<close> is
  taken from each response.
\<close>

definition loadData_try :: "'w client \<Rightarrow> tracker \<Rightarrow> 'w \<Rightarrow> (api_error + tracker) \<times> 'w" where
  "loadData_try sb st w =
     (case auth_getUser sb w of
        (Throws e, w1) \<Rightarrow> (Inl e, w1)
      | (Response None _, w1) \<Rightarrow> (Inr st, w1)
      | (Response (Some user) _, w1) \<Rightarrow>
         (case profiles_select_order sb w1 of
            (Throws e, w2) \<Rightarrow> (Inl e, w2)
          | (Response profilesData _, w2) \<Rightarrow>
             (case profiles_select_eq_id_maybeSingle sb user w2 of
                (Throws e, w3) \<Rightarrow> (Inl e, w3)
              | (Response currentProfileData _, w3) \<Rightarrow>
                 (case savings_select_order_desc sb w3 of
                    (Throws e, w4) \<Rightarrow> (Inl e, w4)
                  | (Response savingsData _, w4) \<Rightarrow>
                     (Inr (store_results profilesData currentProfileData savingsData st), w4)))))"

definition loadData :: "'w client \<Rightarrow> tracker \<times> 'w \<Rightarrow> tracker \<times> 'w" where
  "loadData sb = (\<lambda>(st, w).
     case loadData_try sb st w of
       (Inl e, w') \<Rightarrow> ((console_error ''Error loading data:'' e st)\<lparr>loading := False\<rparr>, w')
     | (Inr st', w') \<Rightarrow> (st'\<lparr>loading := False\<rparr>, w'))"

definition handleAddSaving :: "'w client \<Rightarrow> tracker \<times> 'w \<Rightarrow> tracker \<times> 'w" where
  "handleAddSaving sb = (\<lambda>(st, w).
     case currentUser st of
       None \<Rightarrow> (st, w)
     | Some cu \<Rightarrow>
        if amount_input st = [] then (st, w)
        else
          (case savings_insert sb
                  \<lparr>new_user_id = profile_id cu, new_amount = parseFloat (amount_input st),
                   new_description = trim (description_input st)\<rparr> w of
             (Throws e, w1) \<Rightarrow> (console_error ''Error adding saving:'' e st, w1)
           | (Response _ (Some e), w1) \<Rightarrow> (console_error ''Error adding saving:'' e st, w1)
           | (Response _ None, w1) \<Rightarrow>
               loadData sb (st\<lparr>amount_input := [], description_input := []\<rparr>, w1)))"

definition handleDeleteSaving :: "'w client \<Rightarrow> uuid \<Rightarrow> tracker \<times> 'w \<Rightarrow> tracker \<times> 'w" where
  "handleDeleteSaving sb i = (\<lambda>(st, w).
     case savings_delete_eq_id sb i w of
       (Throws e, w1) \<Rightarrow> (console_error ''Error deleting saving:'' e st, w1)
     | (Response _ (Some e), w1) \<Rightarrow> (console_error ''Error deleting saving:'' e st, w1)
     | (Response _ None, w1) \<Rightarrow> loadData sb (st, w1))"

definition getProfileById :: "tracker \<Rightarrow> uuid \<Rightarrow> profile option" where
  "getProfileById st userId = find (\<lambda>p. profile_id p = userId) (profiles st)"

definition calculateTotal :: "tracker \<Rightarrow> number" where
  "calculateTotal st = foldl (\<lambda>sum saving. num_add sum (Number (amount saving))) (Num 0) (savings st)"

definition calculateUserTotal :: "tracker \<Rightarrow> uuid \<Rightarrow> number" where
  "calculateUserTotal st userId =
     foldl (\<lambda>sum saving. num_add sum (Number (amount saving))) (Num 0)
       (filter (\<lambda>s. user_id s = userId) (savings st))"

subsection \<open>A session of the component\<close>

text \<open>
  What happens to a mounted component: its effect runs \<open>loadData\<close>, the user edits the two
  inputs (the amount cell receives the value of the number field), submits the form, or presses delete on a row; in between, other sessions and the
  auth provider act on the store, and the session may expire. The identity of a session
  does not change otherwise: \<open>App\<close> mounts the component while a session exists and
  unmounts it on sign-out, so another identity meets a fresh component. The handlers run
  one after the other, each to its end; \<open>loadData()\<close> at the end of a handler, which the
  source does not await, is run as the handler's last step.
\<close>

datatype ui_event =
  Mounted
  | Amount_changed js_string
  | Description_changed js_string
  | Form_submitted
  | Delete_clicked uuid
  | Elsewhere event
  | Session_expired

fun dispatch :: "tracker \<times> backend \<Rightarrow> ui_event \<Rightarrow> tracker \<times> backend" where
  "dispatch (st, w) Mounted = loadData supabase (st, w)"
| "dispatch (st, w) (Amount_changed s) = (st\<lparr>amount_input := number_input_value s\<rparr>, w)"
| "dispatch (st, w) (Description_changed s) = (st\<lparr>description_input := s\<rparr>, w)"
| "dispatch (st, w) Form_submitted = handleAddSaving supabase (st, w)"
| "dispatch (st, w) (Delete_clicked i) = handleDeleteSaving supabase i (st, w)"
| "dispatch (st, w) (Elsewhere ev) = (st, w\<lparr>db := step (db w) ev\<rparr>)"
| "dispatch (st, w) Session_expired = (st, w\<lparr>session := None\<rparr>)"

section \<open>Worked histories\<close>

text \<open>
  Identity \<open>U1\<close> signs up, creates the profile Alice and records a saving of 100, ``gift''.
\<close>

definition scenario_1 :: "event list" where
  "scenario_1 =
     [Sign_up ''U1'',
      Statement (Some ''U1'')
        (Insert_profile 0 \<lparr>v_profile_id = Some ''U1'', v_name = Some ''Alice'',
                            v_profile_created_at = None\<rparr>),
      Statement (Some ''U1'')
        (Insert_saving ''S1'' 1 \<lparr>v_saving_id = None, v_user_id = Some ''U1'', v_amount = Some 100,
                                 v_description = Some (utf16 ''gift''), v_created_at = None\<rparr>)]"

definition database_1 :: database where
  "database_1 =
     \<lparr>auth_users = [''U1''],
      profiles_table = [\<lparr>profile_id = ''U1'', name = ''Alice'', profile_created_at = 0\<rparr>],
      savings_table = [\<lparr>saving_id = ''S1'', user_id = ''U1'', amount = 100, description = utf16 ''gift'',
                        created_at = 1\<rparr>]\<rparr>"

text \<open>
  A second identity \<open>U2\<close>, Budi, joins; \<open>U1\<close> records 50 and \<open>U2\<close> records 75.
\<close>

definition scenario_2 :: "event list" where
  "scenario_2 =
     [Sign_up ''U1'', Sign_up ''U2'',
      Statement (Some ''U1'')
        (Insert_profile 0 \<lparr>v_profile_id = Some ''U1'', v_name = Some ''Alice'',
                            v_profile_created_at = None\<rparr>),
      Statement (Some ''U2'')
        (Insert_profile 1 \<lparr>v_profile_id = Some ''U2'', v_name = Some ''Budi'',
                            v_profile_created_at = None\<rparr>),
      Statement (Some ''U1'')
        (Insert_saving ''S1'' 2 \<lparr>v_saving_id = None, v_user_id = Some ''U1'', v_amount = Some 50,
                                 v_description = Some [], v_created_at = None\<rparr>),
      Statement (Some ''U2'')
        (Insert_saving ''S2'' 3 \<lparr>v_saving_id = None, v_user_id = Some ''U2'', v_amount = Some 75,
                                 v_description = Some [], v_created_at = None\<rparr>)]"

definition database_2 :: database where
  "database_2 =
     \<lparr>auth_users = [''U1'', ''U2''],
      profiles_table = [\<lparr>profile_id = ''U1'', name = ''Alice'', profile_created_at = 0\<rparr>,
                        \<lparr>profile_id = ''U2'', name = ''Budi'', profile_created_at = 1\<rparr>],
      savings_table = [\<lparr>saving_id = ''S1'', user_id = ''U1'', amount = 50, description = [],
                        created_at = 2\<rparr>,
                       \<lparr>saving_id = ''S2'', user_id = ''U2'', amount = 75, description = [],
                        created_at = 3\<rparr>]\<rparr>"

text \<open>The backend as \<open>U1\<close>'s session finds it after the second history, and with no session.\<close>

definition world_2 :: backend where
  "world_2 = \<lparr>session = Some ''U1'', db = database_2, clock = 4,
              uuid_supply = (\<lambda>t. ''S3''), requests = []\<rparr>"

definition world_0 :: backend where
  "world_0 = world_2\<lparr>session := None\<rparr>"

text \<open>The component of \<open>U1\<close> once it has loaded that backend.\<close>

definition tracker_2 :: tracker where
  "tracker_2 =
     \<lparr>currentUser = Some \<lparr>profile_id = ''U1'', name = ''Alice'', profile_created_at = 0\<rparr>,
      profiles = [\<lparr>profile_id = ''U1'', name = ''Alice'', profile_created_at = 0\<rparr>,
                  \<lparr>profile_id = ''U2'', name = ''Budi'', profile_created_at = 1\<rparr>],
      savings = [\<lparr>saving_id = ''S2'', user_id = ''U2'', amount = Num 75, description = [],
                  created_at = 3\<rparr>,
                 \<lparr>saving_id = ''S1'', user_id = ''U1'', amount = Num 50, description = [],
                  created_at = 2\<rparr>],
      amount_input = [], description_input = [], loading = False, console = []\<rparr>"

text \<open>
  The same two identities with amounts that have a fractional part, as the form's step of
  \<open>0.01\<close> allows: \<open>U2\<close> records 0.3 and then 0.2, \<open>U1\<close> records 0.1. The component of
  \<open>U1\<close> that has loaded this holds the three nearest doubles, newest first.
\<close>

definition database_3 :: database where
  "database_3 =
     \<lparr>auth_users = [''U1'', ''U2''],
      profiles_table = [\<lparr>profile_id = ''U1'', name = ''Alice'', profile_created_at = 0\<rparr>,
                        \<lparr>profile_id = ''U2'', name = ''Budi'', profile_created_at = 1\<rparr>],
      savings_table = [\<lparr>saving_id = ''S1'', user_id = ''U2'', amount = 3 / 10, description = [],
                        created_at = 2\<rparr>,
                       \<lparr>saving_id = ''S2'', user_id = ''U2'', amount = 2 / 10, description = [],
                        created_at = 3\<rparr>,
                       \<lparr>saving_id = ''S3'', user_id = ''U1'', amount = 1 / 10, description = [],
                        created_at = 4\<rparr>]\<rparr>"

definition world_3 :: backend where
  "world_3 = \<lparr>session = Some ''U1'', db = database_3, clock = 5,
              uuid_supply = (\<lambda>t. ''S4''), requests = []\<rparr>"

definition tracker_3 :: tracker where
  "tracker_3 =
     \<lparr>currentUser = Some \<lparr>profile_id = ''U1'', name = ''Alice'', profile_created_at = 0\<rparr>,
      profiles = [\<lparr>profile_id = ''U1'', name = ''Alice'', profile_created_at = 0\<rparr>,
                  \<lparr>profile_id = ''U2'', name = ''Budi'', profile_created_at = 1\<rparr>],
      savings = [\<lparr>saving_id = ''S3'', user_id = ''U1'', amount = Num (3602879701896397 / 2 ^ 55),
                  description = [], created_at = 4\<rparr>,
                 \<lparr>saving_id = ''S2'', user_id = ''U2'', amount = Num (3602879701896397 / 2 ^ 54),
                  description = [], created_at = 3\<rparr>,
                 \<lparr>saving_id = ''S1'', user_id = ''U2'', amount = Num (5404319552844595 / 2 ^ 54),
                  description = [], created_at = 2\<rparr>],
      amount_input = [], description_input = [], loading = False, console = []\<rparr>"

text \<open>
  The client when the three reads do not get through: each resolves with null data and an
  error, as the library reports a failed request, while \<open>getUser\<close> still answers.
\<close>

definition unanswered_reads :: "backend client" where
  "unanswered_reads =
     supabase\<lparr>profiles_select_order := (\<lambda>w. (Response None (Some Fetch_failed), w)),
              profiles_select_eq_id_maybeSingle := (\<lambda>i w. (Response None (Some Fetch_failed), w)),
              savings_select_order_desc := (\<lambda>w. (Response None (Some Fetch_failed), w))\<rparr>"

section \<open>What a session of the component maintains\<close>

text \<open>The bodies of the inserts among the requests the backend has received.\<close>

fun inserts_of :: "request list \<Rightarrow> insert_body list" where
  "inserts_of [] = []"
| "inserts_of (Insert_savings b # rs) = b # inserts_of rs"
| "inserts_of (_ # rs) = inserts_of rs"

text \<open>
  The component acts as identity \<open>A\<close>: the session is \<open>A\<close>'s or has expired, the profile it
  has cached, if any, is \<open>A\<close>'s, and every insert received so far names \<open>A\<close>.
\<close>

definition acts_as :: "uuid \<Rightarrow> tracker \<times> backend \<Rightarrow> bool" where
  "acts_as A = (\<lambda>(st, w).
     (session w = None \<or> session w = Some A)
     \<and> (case currentUser st of None \<Rightarrow> True | Some p \<Rightarrow> profile_id p = A)
     \<and> list_all (\<lambda>b. new_user_id b = A) (inserts_of (requests w)))"

text \<open>
  The component without an identity: it has cached no profile, shows no row, has logged
  nothing and has sent no insert.
\<close>

definition never_loaded :: "tracker \<times> backend \<Rightarrow> bool" where
  "never_loaded = (\<lambda>(st, w).
     session w = None \<and> currentUser st = None \<and> profiles st = [] \<and> savings st = []
     \<and> console st = [] \<and> inserts_of (requests w) = [])"

section \<open>Rounding\<close>

text \<open>\<open>binary_exponent\<close> is the floor of the binary logarithm.\<close>

lemma bitlen_rat_bounds:
  assumes "0 < a"
  shows "power_int (2::rat) (bitlen a - 1) \<le> of_int a" and "of_int a < power_int (2::rat) (bitlen a)"
proof -
  have l: "1 \<le> bitlen a" using assms by (simp add: bitlen_alt_def)
  from bitlen_bounds [OF assms] have lo: "2 ^ nat (bitlen a - 1) \<le> a" and hi: "a < 2 ^ nat (bitlen a)"
    by simp_all
  have "power_int (2::rat) (bitlen a - 1) = of_int (2 ^ nat (bitlen a - 1))"
    using l by (simp add: power_int_nonneg_exp)
  also have "\<dots> \<le> of_int a" using lo by (simp only: of_int_le_iff)
  finally show "power_int (2::rat) (bitlen a - 1) \<le> of_int a" .
  have "(of_int a :: rat) < of_int (2 ^ nat (bitlen a))" using hi by (simp only: of_int_less_iff)
  also have "\<dots> = power_int 2 (bitlen a)"
    using l by (simp add: power_int_nonneg_exp)
  finally show "of_int a < power_int (2::rat) (bitlen a)" .
qed

lemma binary_exponent_bounds:
  assumes "0 < x"
  shows "power_int 2 (binary_exponent x) \<le> x" and "x < power_int 2 (binary_exponent x + 1)"
proof -
  obtain a b where q: "quotient_of x = (a, b)" by force
  have b: "0 < b" using quotient_of_denom_pos [OF q] .
  have x: "x = of_int a / of_int b" using quotient_of_div [OF q] .
  have a: "0 < a" using assms b by (simp add: x zero_less_divide_iff)
  define la lb where "la = bitlen a" and "lb = bitlen b"
  note A = bitlen_rat_bounds [OF a, folded la_def]
  note B = bitlen_rat_bounds [OF b, folded lb_def]
  have bpos: "(0::rat) < of_int b" and apos: "(0::rat) < of_int a" using a b by simp_all
  have p: "(0::rat) < power_int 2 k" for k by (simp add: zero_less_power_int)
  have "x < power_int 2 la / power_int 2 (lb - 1)"
    unfolding x using A(2) B(1) apos bpos p [of "lb - 1"]
    by (intro frac_less) simp_all
  also have "\<dots> = power_int 2 (la - lb + 1)"
    using power_int_diff [of "2::rat" la "lb - 1"] by (simp add: algebra_simps)
  finally have up: "x < power_int 2 (la - lb + 1)" .
  have "power_int 2 (la - 1) / power_int 2 lb < x"
    unfolding x using A(1) B(2) apos bpos p [of "la - 1"]
    by (intro frac_less2) simp_all
  moreover have "power_int (2::rat) (la - 1) / power_int 2 lb = power_int 2 (la - lb - 1)"
    using power_int_diff [of "2::rat" "la - 1" lb] by (simp add: algebra_simps)
  ultimately have low: "power_int 2 (la - lb - 1) < x" by simp
  have e: "binary_exponent x = (if power_int 2 (la - lb) \<le> x then la - lb else la - lb - 1)"
    by (simp add: binary_exponent_def q la_def lb_def)
  show "power_int 2 (binary_exponent x) \<le> x"
    using low by (simp add: e)
  show "x < power_int 2 (binary_exponent x + 1)"
    using up by (simp add: e)
qed

lemma binary_exponent_eqI:
  assumes "power_int 2 e \<le> x" and "x < power_int 2 (e + 1)"
  shows "binary_exponent x = e"
proof -
  have "(0::rat) < power_int 2 e" by (simp add: zero_less_power_int)
  then have pos: "0 < x" using assms(1) by (rule less_le_trans)
  note B = binary_exponent_bounds [OF pos]
  have "power_int (2::rat) e < power_int 2 (binary_exponent x + 1)"
    using assms(1) B(2) by simp
  then have 1: "e < binary_exponent x + 1"
    by (metis linorder_not_less one_le_numeral power_int_increasing)
  have "power_int (2::rat) (binary_exponent x) < power_int 2 (e + 1)"
    using assms(2) B(1) by simp
  then have 2: "binary_exponent x < e + 1"
    by (metis linorder_not_less one_le_numeral power_int_increasing)
  from 1 2 show ?thesis by simp
qed

lemma double_of_normal:
  assumes "power_int 2 e \<le> \<bar>x\<bar>" and "\<bar>x\<bar> < power_int 2 (e + 1)"
    and "- 1022 \<le> e" and "e < 1023"
    and "round_half_even (x / power_int 2 (e - 52)) = m"
  shows "double_of x = Num (of_int m * power_int 2 (e - 52))"
proof -
  have "(0::rat) < power_int 2 e" by (simp add: zero_less_power_int)
  then have "0 < \<bar>x\<bar>" using assms(1) by (rule less_le_trans)
  then have nz: "x \<noteq> 0" by simp
  have be: "binary_exponent \<bar>x\<bar> = e"
    using assms(1,2) by (rule binary_exponent_eqI)
  have mx: "max e (- 1022) = e" using assms(3) by simp
  show ?thesis
    using nz assms(4) by (simp add: double_of_def be mx Let_def assms(5))
qed

lemma floor_numeral_quotient:
  "\<lfloor>(numeral a :: rat) / numeral b\<rfloor> = numeral a div numeral b"
  "\<lfloor>- ((numeral a :: rat) / numeral b)\<rfloor> = - numeral a div numeral b"
  using floor_divide_of_int_eq [where ?'a = rat, of "numeral a" "numeral b"]
    floor_divide_of_int_eq [where ?'a = rat, of "- numeral a" "numeral b"]
  by simp_all

lemmas rounding = round_half_even_def Let_def floor_numeral_quotient

text \<open>An integer below \<open>2 ^ 53\<close> in magnitude is a double: rounding leaves it as it is.\<close>

lemma round_half_even_of_int [simp]: "round_half_even (of_int n) = n"
  by (simp add: round_half_even_def Let_def)

lemma bitlen_pos: "0 < k \<Longrightarrow> 1 \<le> bitlen k"
  by (simp add: bitlen_alt_def)

lemma bitlen_le_53:
  assumes "0 < k" and "k < 2 ^ 53"
  shows "bitlen k \<le> 53"
proof (rule ccontr)
  assume "\<not> bitlen k \<le> 53"
  then have "53 \<le> nat (bitlen k - 1)" by simp
  then have "(2::int) ^ 53 \<le> 2 ^ nat (bitlen k - 1)"
    by (rule power_increasing) simp
  also have "\<dots> \<le> k" using bitlen_bounds [OF assms(1)] by simp
  finally show False using assms(2) by simp
qed

lemma binary_exponent_of_int:
  assumes "0 < k"
  shows "binary_exponent (of_int k) = bitlen k - 1"
proof -
  have q: "quotient_of (of_int k) = (k, 1)" by simp
  have b1: "bitlen 1 = 1" by (simp add: bitlen_alt_def)
  have "1 \<le> bitlen k" using assms by (rule bitlen_pos)
  then have "power_int (2::rat) (bitlen k - 1) = 2 ^ nat (bitlen k - 1)"
    by (simp add: power_int_def)
  also have "\<dots> = of_int (2 ^ nat (bitlen k - 1))" by simp
  also have "\<dots> \<le> of_int k"
    using bitlen_bounds [OF assms] by (subst of_int_le_iff) simp
  finally show ?thesis
    by (simp add: binary_exponent_def q b1)
qed

lemma double_of_int_pos:
  assumes "0 < k" and "k < 2 ^ 53"
  shows "double_of (of_int k) = Num (of_int k)"
proof -
  define e where "e = bitlen k - 1"
  have e: "0 \<le> e" "e \<le> 52"
    using bitlen_pos [OF assms(1)] bitlen_le_53 [OF assms] by (simp_all add: e_def)
  have be: "binary_exponent \<bar>of_int k\<bar> = e"
    using assms(1) binary_exponent_of_int [OF assms(1)] by (simp add: e_def)
  have q: "power_int (2::rat) (e - 52) = 1 / 2 ^ nat (52 - e)"
    using e by (simp add: power_int_def field_simps)
  have dv: "(of_int k :: rat) / power_int 2 (e - 52) = of_int (k * 2 ^ nat (52 - e))"
    by (simp add: q)
  have restore: "(of_int (k * 2 ^ nat (52 - e)) :: rat) * power_int 2 (e - 52) = of_int k"
    by (simp add: q)
  have nz: "(of_int k :: rat) \<noteq> 0" using assms(1) by simp
  have mx: "max e (- 1022) = e" using e by simp
  have "double_of (of_int k)
      = Num (of_int (round_half_even (of_int k / power_int 2 (e - 52))) * power_int 2 (e - 52))"
    using e nz by (simp add: double_of_def be mx Let_def)
  also have "\<dots> = Num (of_int k)"
    by (simp only: dv round_half_even_of_int restore)
  finally show ?thesis .
qed


lemma double_of_int_neg:
  assumes "0 < k" and "k < 2 ^ 53"
  shows "double_of (- of_int k) = Num (- of_int k)"
proof -
  define e where "e = bitlen k - 1"
  have e: "0 \<le> e" "e \<le> 52"
    using bitlen_pos [OF assms(1)] bitlen_le_53 [OF assms] by (simp_all add: e_def)
  have be: "binary_exponent (of_int k) = e"
    using binary_exponent_of_int [OF assms(1)] by (simp add: e_def)
  have q: "power_int (2::rat) (e - 52) = 1 / 2 ^ nat (52 - e)"
    using e by (simp add: power_int_def field_simps)
  have dv: "(- of_int k :: rat) / power_int 2 (e - 52) = of_int (- (k * 2 ^ nat (52 - e)))"
    by (simp add: q)
  have restore: "(of_int (- (k * 2 ^ nat (52 - e))) :: rat) * power_int 2 (e - 52) = - of_int k"
    by (simp add: q)
  have nz: "(- of_int k :: rat) \<noteq> 0" using assms(1) by simp
  have mx: "max e (- 1022) = e" using e by simp
  have "double_of (- of_int k)
      = Num (of_int (round_half_even (- of_int k / power_int 2 (e - 52))) * power_int 2 (e - 52))"
    using e nz assms(1) by (simp add: double_of_def be mx Let_def)
  also have "\<dots> = Num (- of_int k)"
    by (simp only: dv round_half_even_of_int restore)
  finally show ?thesis .
qed

lemma double_of_int:
  assumes "\<bar>k\<bar> < 2 ^ 53"
  shows "double_of (of_int k) = Num (of_int k)"
proof -
  consider "k = 0" | "0 < k" | "k < 0" by linarith
  then show ?thesis
  proof cases
    case 1
    then show ?thesis by (simp add: double_of_def)
  next
    case 2
    with assms show ?thesis by (intro double_of_int_pos) simp_all
  next
    case 3
    with assms double_of_int_neg [of "- k"] show ?thesis by simp
  qed
qed

lemma double_of_75: "double_of 75 = Num 75"
  using double_of_int [of 75] by simp

lemma double_of_50: "double_of 50 = Num 50"
  using double_of_int [of 50] by simp

lemma double_of_tenths:
  "double_of (3 / 10) = Num (5404319552844595 / 2 ^ 54)"
  "double_of (2 / 10) = Num (3602879701896397 / 2 ^ 54)"
  "double_of (1 / 10) = Num (3602879701896397 / 2 ^ 55)"
    apply (rule double_of_normal [where e = "- 2" and m = 5404319552844595, THEN trans];
      simp add: rounding)
   apply (rule double_of_normal [where e = "- 3" and m = 7205759403792794, THEN trans];
      simp add: rounding)
  apply (rule double_of_normal [where e = "- 4" and m = 7205759403792794, THEN trans];
      simp add: rounding)
  done

lemma double_of_minus_10: "double_of (- 10) = Num (- 10)"
  using double_of_int [of "- 10"] by simp

lemma parseFloat_minus_10: "parseFloat (utf16 ''-10'') = Num (- 10)"
  by (simp add: parseFloat_def utf16_def is_white_space_def is_digit_def decimal_value_def
        double_of_minus_10)

lemma parseFloat_0: "parseFloat (utf16 ''0'') = Num 0"
  by (simp add: parseFloat_def utf16_def is_white_space_def is_digit_def decimal_value_def double_of_def)

lemma parseFloat_abc: "parseFloat (utf16 ''abc'') = NaN"
  by (simp add: parseFloat_def utf16_def is_white_space_def is_digit_def decimal_value_def)

subsection \<open>Strings at work\<close>

lemma utf16_eq_Nil [simp]: "utf16 s = [] \<longleftrightarrow> s = []"
  by (simp add: utf16_def)

lemmas string_simps =
  utf16_def is_white_space_def is_digit_def decimal_value_def trim_def
  valid_floating_point_number_def number_input_value_def

lemma parseFloat_100: "parseFloat (utf16 ''100'') = Num 100"
  using double_of_int [of 100] by (simp add: parseFloat_def string_simps)

lemma parseFloat_5: "parseFloat (utf16 ''5'') = Num 5"
  using double_of_int [of 5] by (simp add: parseFloat_def string_simps)

lemma number_input_examples:
  "number_input_value (utf16 ''100'') = utf16 ''100''"
  "number_input_value (utf16 ''5'') = utf16 ''5''"
  "number_input_value (utf16 ''-10'') = utf16 ''-10''"
  "number_input_value (utf16 ''0'') = utf16 ''0''"
  "number_input_value (utf16 ''0.1'') = utf16 ''0.1''"
  "number_input_value (utf16 ''1e3'') = utf16 ''1e3''"
  "number_input_value (utf16 ''abc'') = []"
  "number_input_value (utf16 ''-'') = []"
  "number_input_value (utf16 ''5.'') = []"
  "number_input_value (utf16 ''1e'') = []"
  "number_input_value (utf16 ''+5'') = []"
  "number_input_value (utf16 '' 5'') = []"
  by (simp_all add: string_simps)

lemma trim_examples:
  "trim (utf16 ''gift'') = utf16 ''gift''"
  "trim (utf16 ''  gift '') = utf16 ''gift''"
  "trim (0xA0 # utf16 ''gift'' @ [0x2028, 0xFEFF]) = utf16 ''gift''"
  "trim [] = []"
  by (simp_all add: string_simps)

text \<open>What a number field holds, unless it is empty, never parses to \<open>NaN\<close>.\<close>

lemma double_of_not_NaN [simp]: "double_of x \<noteq> NaN"
  by (simp add: double_of_def Let_def)

lemma parseFloat_after_sign:
  assumes "take_sign (dropWhile is_white_space s) = (neg, t)"
    and "take 8 t \<noteq> utf16 ''Infinity''"
    and "takeWhile is_digit t \<noteq> []
         \<or> (\<exists>r. dropWhile is_digit t = 0x2E # r \<and> takeWhile is_digit r \<noteq> [])"
  shows "parseFloat s \<noteq> NaN"
proof (cases "dropWhile is_digit t")
  case Nil
  with assms show ?thesis by (simp add: parseFloat_def Let_def)
next
  case (Cons c r)
  with assms show ?thesis by (auto simp: parseFloat_def Let_def)
qed

lemma mantissa_start:
  assumes "takeWhile is_digit t \<noteq> []
         \<or> (\<exists>r. dropWhile is_digit t = 0x2E # r \<and> takeWhile is_digit r \<noteq> [])"
  shows "\<exists>c r. t = c # r \<and> (is_digit c \<or> c = 0x2E)"
proof (cases t)
  case Nil
  with assms show ?thesis by simp
next
  case (Cons c r)
  with assms show ?thesis by (cases "is_digit c") auto
qed

lemma valid_number_parses:
  assumes "valid_floating_point_number s"
  shows "parseFloat s \<noteq> NaN"
proof -
  define t where "t = (case s of [] \<Rightarrow> [] | c # r \<Rightarrow> if c = 0x2D then r else s)"
  from assms have m: "takeWhile is_digit t \<noteq> []
         \<or> (\<exists>r. dropWhile is_digit t = 0x2E # r \<and> takeWhile is_digit r \<noteq> [])"
    unfolding valid_floating_point_number_def Let_def t_def [symmetric]
    by (auto split: list.splits if_splits)
  from mantissa_start [OF m] obtain c r where t: "t = c # r" and c: "is_digit c \<or> c = 0x2E"
    by blast
  have inf: "take 8 t \<noteq> utf16 ''Infinity''"
    using c by (auto simp: t utf16_def is_digit_def)
  have "\<exists>neg. take_sign (dropWhile is_white_space s) = (neg, t)"
  proof (cases s)
    case Nil
    with t show ?thesis by (simp add: t_def)
  next
    case (Cons a q)
    show ?thesis
    proof (cases "a = 0x2D")
      case True
      with Cons show ?thesis by (auto simp: t_def is_white_space_def)
    next
      case False
      with Cons have "t = s" by (simp add: t_def)
      with t Cons have "a = c" by simp
      with c Cons \<open>t = s\<close> show ?thesis
        by (auto simp: is_white_space_def is_digit_def)
    qed
  qed
  then obtain neg where "take_sign (dropWhile is_white_space s) = (neg, t)" by blast
  from this inf m show ?thesis by (rule parseFloat_after_sign)
qed

section \<open>The store keeps its constraints\<close>

lemmas store_simps =
  insert_saving_def update_savings_def delete_savings_def insert_profile_def update_profiles_def
  delete_profiles_def create_auth_user_def delete_auth_user_def permits_def
  view_all_profiles_def update_own_profile_def insert_own_profile_def view_all_savings_def
  insert_own_savings_def update_own_savings_def delete_own_savings_def empty_database_def

lemma scenario_1_database: "foldl step empty_database scenario_1 = database_1"
  by (simp add: scenario_1_def database_1_def store_simps)

lemma scenario_2_database: "foldl step empty_database scenario_2 = database_2"
  by (simp add: scenario_2_def database_2_def store_simps)

lemma empty_database_consistent: "consistent empty_database"
  by (simp add: consistent_def empty_database_def)

lemma consistent_insert_saving:
  "consistent d \<Longrightarrow> insert_saving caller g t v d = Inr d' \<Longrightarrow> consistent d'"
  by (auto simp: insert_saving_def consistent_def Let_def list_all_iff
      split: option.splits if_splits)

lemma consistent_delete_savings: "consistent d \<Longrightarrow> consistent (delete_savings caller c d)"
  by (auto simp: delete_savings_def consistent_def list_all_iff distinct_map_filter)

lemma consistent_update_savings:
  "consistent d \<Longrightarrow> update_savings caller c p d = Inr d' \<Longrightarrow> consistent d'"
  by (auto simp: update_savings_def consistent_def Let_def list_all_iff list_ex_iff
      split: if_splits)

lemma consistent_insert_profile:
  "consistent d \<Longrightarrow> insert_profile caller t v d = Inr d' \<Longrightarrow> consistent d'"
  by (auto simp: insert_profile_def consistent_def Let_def list_all_iff
      split: option.splits if_splits)

lemma consistent_update_profiles:
  assumes "consistent d" and "update_profiles caller c p d = Inr d'"
  shows "consistent d'"
proof -
  define hit where "hit = (\<lambda>r. c r \<and> permits update_own_profile caller r)"
  define rows' where
    "rows' = map (\<lambda>r. if hit r then apply_profile_patch p r else r) (profiles_table d)"
  have eq: "update_profiles caller c p d =
     (if list_ex (\<lambda>r. \<not> permits update_own_profile caller r)
           (map (apply_profile_patch p) (filter hit (profiles_table d))) then Inl Rls_violation
      else if \<not> distinct (map profile_id rows') then Inl Unique_violation
      else if list_ex (\<lambda>r. profile_id r \<notin> set (auth_users d))
                (map (apply_profile_patch p) (filter hit (profiles_table d)))
              \<or> list_ex (\<lambda>s. user_id s \<notin> set (map profile_id rows')) (savings_table d)
        then Inl Foreign_key_violation
      else Inr (d\<lparr>profiles_table := rows'\<rparr>))"
    unfolding update_profiles_def Let_def hit_def rows'_def by (rule refl)
  from assms(2) have d': "d' = d\<lparr>profiles_table := rows'\<rparr>"
    and dist: "distinct (map profile_id rows')"
    and fk1: "\<forall>r\<in>set (profiles_table d).
                hit r \<longrightarrow> profile_id (apply_profile_patch p r) \<in> set (auth_users d)"
    and fk2: "\<forall>s\<in>set (savings_table d). user_id s \<in> set (map profile_id rows')"
    unfolding eq by (auto simp: list_ex_iff split: if_splits)
  have "\<forall>r\<in>set rows'. profile_id r \<in> set (auth_users d)"
    using fk1 assms(1) unfolding rows'_def consistent_def list_all_iff by auto
  with assms(1) dist fk2 show ?thesis
    unfolding d' consistent_def list_all_iff by simp
qed

lemma consistent_create_auth_user: "consistent d \<Longrightarrow> consistent (create_auth_user u d)"
  by (auto simp: create_auth_user_def consistent_def list_all_iff)

lemma consistent_delete_auth_user: "consistent d \<Longrightarrow> consistent (delete_auth_user u d)"
  by (auto simp: delete_auth_user_def consistent_def list_all_iff distinct_map_filter)

lemma consistent_execute:
  "consistent d \<Longrightarrow> execute caller s d = Inr d' \<Longrightarrow> consistent d'"
  by (cases s)
    (auto intro: consistent_insert_saving consistent_update_savings consistent_delete_savings
       consistent_insert_profile consistent_update_profiles simp: delete_profiles_def)

lemma consistent_step: "consistent d \<Longrightarrow> consistent (step d ev)"
  by (cases ev)
    (auto split: sum.splits
      intro: consistent_execute consistent_create_auth_user consistent_delete_auth_user)

lemma consistent_history: "consistent d \<Longrightarrow> consistent (foldl step d evs)"
  by (induction evs arbitrary: d) (simp_all add: consistent_step)

lemma insert_saving_needs_positive_amount:
  assumes "insert_saving caller g t v d = Inr d'"
  shows "\<exists>a. v_amount v = Some a \<and> 0 < a"
  using assms by (auto simp: insert_saving_def Let_def split: option.splits if_splits)

text \<open>
  C4. In every state the store reaches from the empty one, by statements of any caller and
  by accounts created and removed, every saving has an amount above zero and a \<open>user_id\<close>
  that is the id of a profile. An insert of a saving whose amount is zero or negative is
  rejected in every state, and leaves the state as it was.
\<close>

theorem savings_rows_stay_valid:
  "(\<forall>r\<in>set (savings_table (foldl step empty_database evs)).
      0 < amount r
      \<and> user_id r \<in> set (map profile_id (profiles_table (foldl step empty_database evs))))
   \<and> (v_amount v = Some a \<and> a \<le> 0 \<longrightarrow>
        (\<exists>e. insert_saving caller g t v d = Inl e)
        \<and> step d (Statement caller (Insert_saving g t v)) = d)"
proof -
  have "consistent (foldl step empty_database evs)"
    by (rule consistent_history [OF empty_database_consistent])
  then have inv: "\<forall>r\<in>set (savings_table (foldl step empty_database evs)).
      0 < amount r
      \<and> user_id r \<in> set (map profile_id (profiles_table (foldl step empty_database evs)))"
    by (simp add: consistent_def list_all_iff)
  have rej: "\<exists>e. insert_saving caller g t v d = Inl e" if "v_amount v = Some a" "a \<le> 0"
  proof (cases "insert_saving caller g t v d")
    case (Inl e)
    then show ?thesis by blast
  next
    case (Inr d')
    from insert_saving_needs_positive_amount [OF this] that show ?thesis by auto
  qed
  from inv rej show ?thesis by auto
qed

theorem savings_rows_stay_valid_witness:
  "savings_table (foldl step empty_database scenario_1)
     = [\<lparr>saving_id = ''S1'', user_id = ''U1'', amount = 100, description = utf16 ''gift'',
          created_at = 1\<rparr>]
   \<and> ''U1'' \<in> set (map profile_id (profiles_table (foldl step empty_database scenario_1)))
   \<and> insert_saving (Some ''U1'') ''S2'' 2
        \<lparr>v_saving_id = None, v_user_id = Some ''U1'', v_amount = Some (- 10),
         v_description = Some [], v_created_at = None\<rparr> database_1 = Inl Check_violation
   \<and> step database_1 (Statement (Some ''U1'') (Insert_saving ''S2'' 2
        \<lparr>v_saving_id = None, v_user_id = Some ''U1'', v_amount = Some (- 10),
         v_description = Some [], v_created_at = None\<rparr>)) = database_1"
  using savings_rows_stay_valid [of scenario_1
      "\<lparr>v_saving_id = None, v_user_id = Some ''U1'', v_amount = Some (- 10),
         v_description = Some [], v_created_at = None\<rparr>" "- 10" "Some ''U1''" "''S2''" 2 database_1]
  by (simp add: scenario_1_database) (simp add: database_1_def store_simps)

section \<open>The component in front of the store\<close>

lemma loadData_supabase_anonymous:
  "session w = None \<Longrightarrow> loadData supabase (st, w) = (st\<lparr>loading := False\<rparr>, w)"
  by (simp add: loadData_def loadData_try_def supabase_def)

lemma select_profiles_authenticated [simp]: "select_profiles (Some u) d = profiles_table d"
  by (simp add: select_profiles_def permits_def view_all_profiles_def)

lemma select_savings_authenticated [simp]: "select_savings (Some u) d = savings_table d"
  by (simp add: select_savings_def permits_def view_all_savings_def)

lemma select_profiles_anonymous [simp]: "select_profiles None d = []"
  by (simp add: select_profiles_def permits_def)

lemma select_savings_anonymous [simp]: "select_savings None d = []"
  by (simp add: select_savings_def permits_def)

lemma maybeSingle_cases:
  "maybeSingle xs = Response None None \<or> (\<exists>x. xs = [x] \<and> maybeSingle xs = Response (Some x) None)
   \<or> maybeSingle xs = Response None (Some Multiple_rows)"
  by (cases xs rule: maybeSingle.cases) auto

lemma loadData_supabase_authenticated:
  assumes "session w = Some u"
  shows "loadData supabase (st, w) =
     (store_results
        (Some (sort_key profile_created_at (profiles_table (db w))))
        (case maybeSingle (filter (\<lambda>r. profile_id r = u) (profiles_table (db w))) of
           Response d _ \<Rightarrow> d | Throws _ \<Rightarrow> None)
        (Some (map saving_of_row (rev (sort_key created_at (savings_table (db w))))))
        st \<lparr>loading := False\<rparr>,
      w\<lparr>requests := requests w @
          [Select_profiles_order_created_at, Select_profiles_eq_id_maybeSingle u,
           Select_savings_order_created_at_desc]\<rparr>)"
  using assms maybeSingle_cases [of "filter (\<lambda>r. profile_id r = u) (profiles_table (db w))"]
  by (auto simp add: loadData_def loadData_try_def supabase_def received_def)

lemma filter_singleton: "filter P xs = [x] \<Longrightarrow> P x \<and> x \<in> set xs"
proof -
  assume a: "filter P xs = [x]"
  have "x \<in> set (filter P xs)" by (simp add: a)
  then show ?thesis by simp
qed

lemma store_results_fields:
  "profiles (store_results pd cd sd st) = (case pd of None \<Rightarrow> profiles st | Some d \<Rightarrow> d)"
  "currentUser (store_results pd cd sd st) = (case cd of None \<Rightarrow> currentUser st | Some d \<Rightarrow> Some d)"
  "savings (store_results pd cd sd st) = (case sd of None \<Rightarrow> savings st | Some d \<Rightarrow> d)"
  "amount_input (store_results pd cd sd st) = amount_input st"
  "description_input (store_results pd cd sd st) = description_input st"
  "loading (store_results pd cd sd st) = loading st"
  "console (store_results pd cd sd st) = console st"
  by (simp_all add: store_results_def Let_def split: option.splits)

lemma loadData_cases:
  obtains (no_user) e w1 where "auth_getUser sb w = (Response None e, w1)"
      and "loadData sb (st, w) = (st\<lparr>loading := False\<rparr>, w1)"
  | (thrown) e w' where
      "loadData sb (st, w) = ((console_error ''Error loading data:'' e st)\<lparr>loading := False\<rparr>, w')"
  | (loaded) user e0 w1 pd e1 w2 cd e2 w3 sd e3 w4 where
      "auth_getUser sb w = (Response (Some user) e0, w1)"
      and "profiles_select_order sb w1 = (Response pd e1, w2)"
      and "profiles_select_eq_id_maybeSingle sb user w2 = (Response cd e2, w3)"
      and "savings_select_order_desc sb w3 = (Response sd e3, w4)"
      and "loadData sb (st, w) = ((store_results pd cd sd st)\<lparr>loading := False\<rparr>, w4)"
proof (cases "auth_getUser sb w")
  case (Pair o0 w1)
  show ?thesis
  proof (cases o0)
    case (Throws e)
    with Pair thrown [of e w1] show ?thesis
      by (simp add: loadData_def loadData_try_def)
  next
    case (Response user e0)
    show ?thesis
    proof (cases user)
      case None
      with Pair Response no_user [of e0 w1] show ?thesis
        by (simp add: loadData_def loadData_try_def)
    next
      case (Some u)
      note g = Pair [unfolded Response Some]
      obtain o1 w2 where p1: "profiles_select_order sb w1 = (o1, w2)" by force
      obtain o2 w3 where p2: "profiles_select_eq_id_maybeSingle sb u w2 = (o2, w3)" by force
      obtain o3 w4 where p3: "savings_select_order_desc sb w3 = (o3, w4)" by force
      show ?thesis
      proof (cases o1)
        case (Throws e)
        with g p1 thrown [of e w2] show ?thesis
          by (simp add: loadData_def loadData_try_def)
      next
        case r1: (Response pd e1)
        show ?thesis
        proof (cases o2)
          case (Throws e)
          with g p1 r1 p2 thrown [of e w3] show ?thesis
            by (simp add: loadData_def loadData_try_def)
        next
          case r2: (Response cd e2)
          show ?thesis
          proof (cases o3)
            case (Throws e)
            with g p1 r1 p2 r2 p3 thrown [of e w4] show ?thesis
              by (simp add: loadData_def loadData_try_def)
          next
            case r3: (Response sd e3)
            with g p1 r1 p2 r2 p3 loaded [of u e0 w1 pd e1 w2 cd e2 w3 sd e3 w4] show ?thesis
              by (simp add: loadData_def loadData_try_def)
          qed
        qed
      qed
    qed
  qed
qed

lemma world_2_session: "session world_2 = Some ''U1''"
  by (simp add: world_2_def)

lemma world_0_session: "session world_0 = None"
  by (simp add: world_0_def world_2_def)

lemma tracker_2_loaded: "fst (loadData supabase (initial_tracker, world_2)) = tracker_2"
  unfolding loadData_supabase_authenticated [OF world_2_session]
  by (simp add: store_results_def initial_tracker_def tracker_2_def world_2_def database_2_def
        saving_of_row_def double_of_75 double_of_50)

lemma tracker_3_loaded: "fst (loadData supabase (initial_tracker, world_3)) = tracker_3"
proof -
  have s: "session world_3 = Some ''U1''" by (simp add: world_3_def)
  show ?thesis
    unfolding loadData_supabase_authenticated [OF s]
    by (simp add: store_results_def initial_tracker_def tracker_3_def world_3_def database_3_def
        saving_of_row_def double_of_tenths [simplified])
qed

lemma maybeSingle_find:
  assumes "distinct (map f xs)"
  shows "maybeSingle (filter (\<lambda>r. f r = u) xs) = Response (find (\<lambda>r. f r = u) xs) None"
  using assms
proof (induction xs)
  case Nil
  then show ?case by simp
next
  case (Cons x xs)
  show ?case
  proof (cases "f x = u")
    case True
    with Cons.prems have "u \<notin> f ` set xs" by auto
    then have "filter (\<lambda>r. f r = u) xs = []"
      by (auto simp: filter_empty_conv)
    with True show ?thesis by simp
  next
    case False
    with Cons show ?thesis by simp
  qed
qed

lemma own_profile_read:
  assumes "session w = Some u" and "distinct (map profile_id (profiles_table (db w)))"
  shows "fst (profiles_select_eq_id_maybeSingle supabase u w)
       = Response (find (\<lambda>r. profile_id r = u) (profiles_table (db w))) None"
    and "currentUser (fst (loadData supabase (st, w)))
       = (case find (\<lambda>r. profile_id r = u) (profiles_table (db w)) of
            None \<Rightarrow> currentUser st | Some p \<Rightarrow> Some p)"
proof -
  note m = maybeSingle_find [OF assms(2), of u]
  show "fst (profiles_select_eq_id_maybeSingle supabase u w)
       = Response (find (\<lambda>r. profile_id r = u) (profiles_table (db w))) None"
    using assms(1) m by (simp add: supabase_def)
  show "currentUser (fst (loadData supabase (st, w)))
       = (case find (\<lambda>r. profile_id r = u) (profiles_table (db w)) of
            None \<Rightarrow> currentUser st | Some p \<Rightarrow> Some p)"
    unfolding loadData_supabase_authenticated [OF assms(1)] m
    by (simp add: store_results_fields)
qed

lemma find_distinct_key:
  "distinct (map f xs) \<Longrightarrow> x \<in> set xs \<Longrightarrow> f x = u \<Longrightarrow> find (\<lambda>r. f r = u) xs = Some x"
  by (induction xs) force+

lemma loaded_profile_is_cached:
  assumes "session w = Some A" and "distinct (map profile_id (profiles_table (db w)))"
    and "cu \<in> set (profiles_table (db w))" and "profile_id cu = A"
  shows "currentUser (fst (loadData supabase (st, w))) = Some cu"
  by (simp add: own_profile_read(2) [OF assms(1,2)] find_distinct_key [OF assms(2,3,4)])

lemma world_2_loaded:
  "loadData supabase (initial_tracker, world_2)
     = (tracker_2, world_2\<lparr>requests :=
          [Select_profiles_order_created_at, Select_profiles_eq_id_maybeSingle ''U1'',
           Select_savings_order_created_at_desc]\<rparr>)"
  unfolding loadData_supabase_authenticated [OF world_2_session]
  by (simp add: store_results_def initial_tracker_def tracker_2_def world_2_def database_2_def
        saving_of_row_def double_of_75 double_of_50)

subsection \<open>Deleting\<close>

text \<open>
  C1. For a caller \<open>C\<close> with a session, deleting by id through the client answers without
  an error whatever the id is; the savings left are exactly those that do not have both
  that id and \<open>user_id = C\<close>; the database changes if and only if a row with that id and
  owner \<open>C\<close> was there (a row of another identity and an id that names no row leave it as
  it was); the profiles are untouched, deleting the same id again changes nothing, and the
  component logs nothing.
\<close>

theorem delete_removes_own_row_only:
  assumes "session w = Some C"
  shows "fst (savings_delete_eq_id supabase i w) = Response None None
    \<and> savings_table (db (snd (savings_delete_eq_id supabase i w)))
        = filter (\<lambda>r. \<not> (saving_id r = i \<and> user_id r = C)) (savings_table (db w))
    \<and> ((\<exists>r\<in>set (savings_table (db w)). saving_id r = i \<and> user_id r = C)
          \<longleftrightarrow> db (snd (savings_delete_eq_id supabase i w)) \<noteq> db w)
    \<and> profiles_table (db (snd (savings_delete_eq_id supabase i w))) = profiles_table (db w)
    \<and> db (snd (savings_delete_eq_id supabase i (snd (savings_delete_eq_id supabase i w))))
        = db (snd (savings_delete_eq_id supabase i w))
    \<and> db (snd (handleDeleteSaving supabase i (st, w)))
        = db (snd (savings_delete_eq_id supabase i w))
    \<and> console (fst (handleDeleteSaving supabase i (st, w))) = console st"
proof -
  let ?own = "\<lambda>r. saving_id r = i \<and> user_id r = C"
  let ?w' = "snd (savings_delete_eq_id supabase i w)"
  have out: "fst (savings_delete_eq_id supabase i w) = Response None None"
    by (simp add: supabase_def)
  have w': "?w' = received (Delete_savings_eq_id i)
      (w\<lparr>db := delete_savings (Some C) (\<lambda>r. saving_id r = i) (db w)\<rparr>)"
    using assms by (simp add: supabase_def)
  have tbl: "savings_table (db ?w') = filter (\<lambda>r. \<not> ?own r) (savings_table (db w))"
    unfolding w' by (simp add: received_def delete_savings_def permits_def delete_own_savings_def eq_commute)
  have dbw': "db ?w' = (db w)\<lparr>savings_table := filter (\<lambda>r. \<not> ?own r) (savings_table (db w))\<rparr>"
    unfolding w' by (simp add: received_def delete_savings_def permits_def delete_own_savings_def eq_commute)
  have changed: "(\<exists>r\<in>set (savings_table (db w)). ?own r) \<longleftrightarrow> db ?w' \<noteq> db w"
  proof
    assume "\<exists>r\<in>set (savings_table (db w)). ?own r"
    then have "filter (\<lambda>r. \<not> ?own r) (savings_table (db w)) \<noteq> savings_table (db w)"
      by (auto simp: filter_id_conv)
    with tbl show "db ?w' \<noteq> db w" by auto
  next
    assume "db ?w' \<noteq> db w"
    then have "filter (\<lambda>r. \<not> ?own r) (savings_table (db w)) \<noteq> savings_table (db w)"
      unfolding dbw' by auto
    then show "\<exists>r\<in>set (savings_table (db w)). ?own r"
      by (auto simp: filter_id_conv)
  qed
  have prof: "profiles_table (db ?w') = profiles_table (db w)"
    unfolding dbw' by simp
  have sess: "session ?w' = Some C"
    unfolding w' using assms by (simp add: received_def)
  have again: "db (snd (savings_delete_eq_id supabase i ?w')) = db ?w'"
    using sess dbw'
    by (simp add: supabase_def received_def delete_savings_def permits_def delete_own_savings_def eq_commute)
  have cons: "db (snd (handleDeleteSaving supabase i (st, w))) = db ?w'
      \<and> console (fst (handleDeleteSaving supabase i (st, w))) = console st"
  proof -
    have "handleDeleteSaving supabase i (st, w) = loadData supabase (st, ?w')"
      by (simp add: handleDeleteSaving_def supabase_def)
    then show ?thesis
      by (simp add: loadData_supabase_authenticated [OF sess] store_results_def Let_def
            split: option.splits)
  qed
  from out tbl changed prof again cons show ?thesis by blast
qed

theorem delete_removes_own_row_only_witness:
  "session world_2 = Some ''U1''
   \<and> fst (savings_delete_eq_id supabase ''S2'' world_2) = Response None None
   \<and> db (snd (savings_delete_eq_id supabase ''S2'' world_2)) = db world_2
   \<and> savings_table (db (snd (savings_delete_eq_id supabase ''S1'' world_2)))
       = [\<lparr>saving_id = ''S2'', user_id = ''U2'', amount = 75, description = [], created_at = 3\<rparr>]"
  using delete_removes_own_row_only [OF world_2_session, of "''S2''"]
    delete_removes_own_row_only [OF world_2_session, of "''S1''"]
  by (simp add: world_2_def database_2_def)

subsection \<open>Inserting\<close>

lemma insert_for_other_rejected:
  assumes "session w = Some A" and "new_user_id b \<noteq> A"
  shows "savings_insert supabase b w
     = (Response None (Some (Postgres Rls_violation)), received (Insert_savings b) w)"
  using assms
  by (simp add: supabase_def insert_saving_def values_of_body_def permits_def insert_own_savings_def
       Let_def split: option.splits)

lemma inserts_of_append [simp]: "inserts_of (xs @ ys) = inserts_of xs @ inserts_of ys"
  by (induction xs rule: inserts_of.induct) simp_all

lemma maybeSingle_Some:
  "maybeSingle xs = Response (Some x) e \<Longrightarrow> x \<in> set xs"
  by (cases xs rule: maybeSingle.cases) auto

lemma acts_as_loadData:
  assumes "acts_as A (st, w)"
  shows "acts_as A (loadData supabase (st, w))"
proof (cases "session w")
  case None
  with assms show ?thesis by (simp add: loadData_supabase_anonymous acts_as_def)
next
  case (Some u)
  with assms have s: "session w = Some A" by (simp add: acts_as_def)
  show ?thesis
    using assms
    by (auto simp: loadData_supabase_authenticated [OF s] acts_as_def store_results_def Let_def
          split: option.splits outcome.splits dest!: maybeSingle_Some)
qed

lemma handleAddSaving_supabase:
  assumes "currentUser st = Some cu" and "amount_input st \<noteq> []"
  shows "handleAddSaving supabase (st, w) =
     (let b = \<lparr>new_user_id = profile_id cu, new_amount = parseFloat (amount_input st),
                new_description = trim (description_input st)\<rparr>
      in case insert_saving (session w) (uuid_supply w (clock w)) (clock w) (values_of_body b) (db w) of
           Inl e \<Rightarrow> (console_error ''Error adding saving:'' (Postgres e) st,
                     received (Insert_savings b) w)
         | Inr d \<Rightarrow> loadData supabase (st\<lparr>amount_input := [], description_input := []\<rparr>,
                      received (Insert_savings b) (w\<lparr>db := d, clock := Suc (clock w)\<rparr>)))"
  using assms
  by (simp add: handleAddSaving_def supabase_def Let_def split: sum.splits)

lemma handleAddSaving_noop:
  "currentUser st = None \<or> amount_input st = [] \<Longrightarrow> handleAddSaving sb (st, w) = (st, w)"
  by (auto simp: handleAddSaving_def split: option.splits)

lemma acts_as_handleAddSaving:
  assumes "acts_as A (st, w)"
  shows "acts_as A (handleAddSaving supabase (st, w))"
proof (cases "currentUser st = None \<or> amount_input st = []")
  case True
  with assms show ?thesis by (simp add: handleAddSaving_noop)
next
  case False
  then obtain cu where cu: "currentUser st = Some cu" and a: "amount_input st \<noteq> []" by auto
  from assms cu have id: "profile_id cu = A" by (simp add: acts_as_def)
  let ?b = "\<lparr>new_user_id = profile_id cu, new_amount = parseFloat (amount_input st),
              new_description = trim (description_input st)\<rparr>"
  show ?thesis
  proof (cases "insert_saving (session w) (uuid_supply w (clock w)) (clock w) (values_of_body ?b) (db w)")
    case (Inl e)
    with assms cu id show ?thesis
      by (simp add: handleAddSaving_supabase [OF cu a] acts_as_def received_def console_error_def)
  next
    case (Inr d)
    have "acts_as A (st\<lparr>amount_input := [], description_input := []\<rparr>,
             received (Insert_savings ?b) (w\<lparr>db := d, clock := Suc (clock w)\<rparr>))"
      using assms cu id by (simp add: acts_as_def received_def)
    from acts_as_loadData [OF this] Inr show ?thesis
      by (simp add: handleAddSaving_supabase [OF cu a])
  qed
qed

lemma handleDeleteSaving_supabase:
  "handleDeleteSaving supabase i (st, w) =
     loadData supabase (st, received (Delete_savings_eq_id i)
           (w\<lparr>db := delete_savings (session w) (\<lambda>r. saving_id r = i) (db w)\<rparr>))"
  by (simp add: handleDeleteSaving_def supabase_def)

lemma acts_as_handleDeleteSaving:
  assumes "acts_as A (st, w)"
  shows "acts_as A (handleDeleteSaving supabase i (st, w))"
  unfolding handleDeleteSaving_supabase
  using assms by (intro acts_as_loadData) (simp add: acts_as_def received_def)

lemma acts_as_dispatch:
  assumes "acts_as A x"
  shows "acts_as A (dispatch x ev)"
proof (cases x)
  case (Pair st w)
  with assms have a: "acts_as A (st, w)" by simp
  show ?thesis
  proof (cases ev)
    case Mounted
    with Pair a show ?thesis by (simp add: acts_as_loadData)
  next
    case (Amount_changed s)
    with Pair a show ?thesis by (simp add: acts_as_def)
  next
    case (Description_changed s)
    with Pair a show ?thesis by (simp add: acts_as_def)
  next
    case Form_submitted
    with Pair a show ?thesis by (simp add: acts_as_handleAddSaving)
  next
    case (Delete_clicked i)
    with Pair a show ?thesis by (simp add: acts_as_handleDeleteSaving)
  next
    case (Elsewhere e)
    with Pair a show ?thesis by (simp add: acts_as_def)
  next
    case Session_expired
    with Pair a show ?thesis by (simp add: acts_as_def)
  qed
qed

lemma acts_as_session: "acts_as A x \<Longrightarrow> acts_as A (foldl dispatch x evs)"
  by (induction evs arbitrary: x) (simp_all add: acts_as_dispatch)

lemma loadData_supabase_inserts:
  "inserts_of (requests (snd (loadData supabase (st, w)))) = inserts_of (requests w)"
proof (cases "session w")
  case None
  then show ?thesis by (simp add: loadData_supabase_anonymous)
next
  case (Some u)
  then show ?thesis by (simp add: loadData_supabase_authenticated)
qed

lemma handleAddSaving_supabase_inserts:
  assumes "currentUser st = Some cu" and "amount_input st \<noteq> []"
  shows "inserts_of (requests (snd (handleAddSaving supabase (st, w))))
       = inserts_of (requests w)
         @ [\<lparr>new_user_id = profile_id cu, new_amount = parseFloat (amount_input st),
             new_description = trim (description_input st)\<rparr>]"
proof -
  let ?b = "\<lparr>new_user_id = profile_id cu, new_amount = parseFloat (amount_input st),
              new_description = trim (description_input st)\<rparr>"
  show ?thesis
  proof (cases "insert_saving (session w) (uuid_supply w (clock w)) (clock w) (values_of_body ?b) (db w)")
    case (Inl e)
    then show ?thesis
      by (simp add: handleAddSaving_supabase [OF assms] received_def)
  next
    case (Inr d)
    then show ?thesis
      by (simp add: handleAddSaving_supabase [OF assms] loadData_supabase_inserts received_def)
  qed
qed

lemma handleAddSaving_anonymous:
  assumes "session w = None" and "currentUser st = Some cu" and "amount_input st \<noteq> []"
  shows "handleAddSaving supabase (st, w)
       = (console_error ''Error adding saving:'' (Postgres Rls_violation) st,
          received (Insert_savings \<lparr>new_user_id = profile_id cu,
                      new_amount = parseFloat (amount_input st),
                      new_description = trim (description_input st)\<rparr>) w)"
  using assms(1)
  by (simp add: handleAddSaving_supabase [OF assms(2,3)] insert_saving_def values_of_body_def
        permits_def Let_def split: option.splits)

lemma submit_run_2:
  "inserts_of (requests (snd (foldl dispatch (initial_tracker, world_2)
       [Mounted, Amount_changed (utf16 ''100''), Description_changed (utf16 ''gift''),
        Form_submitted])))
     = [\<lparr>new_user_id = ''U1'', new_amount = Num 100, new_description = utf16 ''gift''\<rparr>]"
proof -
  let ?st = "tracker_2\<lparr>amount_input := utf16 ''100'', description_input := utf16 ''gift''\<rparr>"
  have cu: "currentUser ?st = Some \<lparr>profile_id = ''U1'', name = ''Alice'', profile_created_at = 0\<rparr>"
    and a: "amount_input ?st \<noteq> []"
    by (simp_all add: tracker_2_def)
  show ?thesis
    by (simp add: world_2_loaded number_input_examples handleAddSaving_supabase_inserts [OF cu a]
          parseFloat_100 trim_examples)
qed

text \<open>
  C2. For distinct identities \<open>A\<close> and \<open>B\<close>, an insert that \<open>A\<close>'s session sends with
  \<open>user_id = B\<close> is answered with the policy's error and the database is as before. In a
  session of \<open>A\<close>, whatever the user does from the mounting of the component on and
  whatever other sessions do to the store, every insert the component sends carries
  \<open>user_id = A\<close>. And it does send them: \<open>loadData\<close> caches \<open>A\<close>'s profile when the table
  holds it, and with that profile cached and an amount typed in, submitting the form sends
  exactly one insert, whose \<open>user_id\<close> is \<open>A\<close>, whose amount is \<open>parseFloat\<close> of the input
  and whose description is the trimmed input.
\<close>

theorem savings_are_inserted_as_oneself:
  assumes "A \<noteq> B" and "session w = Some A"
  shows "(new_user_id b = B \<longrightarrow>
            fst (savings_insert supabase b w) = Response None (Some (Postgres Rls_violation))
            \<and> db (snd (savings_insert supabase b w)) = db w)
       \<and> (requests w = [] \<longrightarrow>
            list_all (\<lambda>b. new_user_id b = A)
              (inserts_of (requests (snd (foldl dispatch (initial_tracker, w) evs)))))
       \<and> (distinct (map profile_id (profiles_table (db w)))
            \<and> cu \<in> set (profiles_table (db w)) \<and> profile_id cu = A \<longrightarrow>
            currentUser (fst (loadData supabase (st, w))) = Some cu)
       \<and> (currentUser st = Some cu \<and> profile_id cu = A \<and> amount_input st \<noteq> [] \<longrightarrow>
            inserts_of (requests (snd (handleAddSaving supabase (st, w))))
              = inserts_of (requests w)
                @ [\<lparr>new_user_id = A, new_amount = parseFloat (amount_input st),
                    new_description = trim (description_input st)\<rparr>])"
proof -
  have rejected: "fst (savings_insert supabase b w) = Response None (Some (Postgres Rls_violation))
      \<and> db (snd (savings_insert supabase b w)) = db w" if "new_user_id b = B"
    using insert_for_other_rejected [OF assms(2), of b] that assms(1)
    by (auto simp: received_def)
  have own: "list_all (\<lambda>b. new_user_id b = A)
      (inserts_of (requests (snd (foldl dispatch (initial_tracker, w) evs))))" if "requests w = []"
  proof -
    have "acts_as A (initial_tracker, w)"
      using assms(2) that by (simp add: acts_as_def initial_tracker_def)
    from acts_as_session [OF this, of evs] show ?thesis
      by (simp add: acts_as_def split_beta)
  qed
  have cached: "currentUser (fst (loadData supabase (st, w))) = Some cu"
    if "distinct (map profile_id (profiles_table (db w)))"
      and "cu \<in> set (profiles_table (db w))" and "profile_id cu = A"
    using assms(2) that by (rule loaded_profile_is_cached)
  have sent: "inserts_of (requests (snd (handleAddSaving supabase (st, w))))
              = inserts_of (requests w)
                @ [\<lparr>new_user_id = A, new_amount = parseFloat (amount_input st),
                    new_description = trim (description_input st)\<rparr>]"
    if "currentUser st = Some cu" and "profile_id cu = A" and "amount_input st \<noteq> []"
    using handleAddSaving_supabase_inserts [OF that(1,3), of w] that(2) by simp
  from rejected own cached sent show ?thesis by blast
qed

theorem savings_are_inserted_as_oneself_witness:
  "''U1'' \<noteq> ''U2'' \<and> session world_2 = Some ''U1''
   \<and> fst (savings_insert supabase
        \<lparr>new_user_id = ''U2'', new_amount = Num 50, new_description = []\<rparr> world_2)
      = Response None (Some (Postgres Rls_violation))
   \<and> db (snd (savings_insert supabase
        \<lparr>new_user_id = ''U2'', new_amount = Num 50, new_description = []\<rparr> world_2)) = db world_2
   \<and> requests world_2 = []
   \<and> list_all (\<lambda>b. new_user_id b = ''U1'')
        (inserts_of (requests (snd (foldl dispatch (initial_tracker, world_2)
           [Mounted, Amount_changed (utf16 ''100''), Description_changed (utf16 ''gift''),
            Form_submitted]))))
   \<and> inserts_of (requests (snd (foldl dispatch (initial_tracker, world_2)
           [Mounted, Amount_changed (utf16 ''100''), Description_changed (utf16 ''gift''),
            Form_submitted])))
       = [\<lparr>new_user_id = ''U1'', new_amount = Num 100, new_description = utf16 ''gift''\<rparr>]
   \<and> currentUser (fst (loadData supabase (initial_tracker, world_2)))
       = Some \<lparr>profile_id = ''U1'', name = ''Alice'', profile_created_at = 0\<rparr>
   \<and> inserts_of (requests (snd (handleAddSaving supabase
          (tracker_2\<lparr>amount_input := utf16 ''100''\<rparr>, world_2))))
       = [\<lparr>new_user_id = ''U1'', new_amount = Num 100, new_description = []\<rparr>]"
proof -
  let ?alice = "\<lparr>profile_id = ''U1'', name = ''Alice'', profile_created_at = 0\<rparr>"
  let ?st = "tracker_2\<lparr>amount_input := utf16 ''100''\<rparr>"
  have h1: "''U1'' \<noteq> ''U2''" by simp
  have h3: "requests world_2 = []" by (simp add: world_2_def)
  have h4: "new_user_id \<lparr>new_user_id = ''U2'', new_amount = Num 50, new_description = []\<rparr> = ''U2''"
    by simp
  have h5: "distinct (map profile_id (profiles_table (db world_2)))"
    "?alice \<in> set (profiles_table (db world_2))" "profile_id ?alice = ''U1''"
    by (simp_all add: world_2_def database_2_def)
  have h6: "currentUser ?st = Some ?alice" "amount_input ?st \<noteq> []"
    by (simp_all add: tracker_2_def)
  have h7: "parseFloat (amount_input ?st) = Num 100" "trim (description_input ?st) = []"
    by (simp_all add: parseFloat_100 tracker_2_def trim_examples)
  note t = savings_are_inserted_as_oneself [OF h1 world_2_session,
      of "\<lparr>new_user_id = ''U2'', new_amount = Num 50, new_description = []\<rparr>"
         "[Mounted, Amount_changed (utf16 ''100''), Description_changed (utf16 ''gift''),
           Form_submitted]" ?alice]
  from t [of initial_tracker] h5 have cached:
    "currentUser (fst (loadData supabase (initial_tracker, world_2))) = Some ?alice"
    by blast
  from t [of ?st] h6 h5(3) have
    "inserts_of (requests (snd (handleAddSaving supabase (?st, world_2))))
       = inserts_of (requests world_2)
         @ [\<lparr>new_user_id = ''U1'', new_amount = parseFloat (amount_input ?st),
             new_description = trim (description_input ?st)\<rparr>]"
    by blast
  then have sent: "inserts_of (requests (snd (handleAddSaving supabase (?st, world_2))))
       = [\<lparr>new_user_id = ''U1'', new_amount = Num 100, new_description = []\<rparr>]"
    by (simp only: h7 h3 inserts_of.simps append_Nil)
  from t [of initial_tracker] h1 world_2_session h3 h4 cached sent submit_run_2
  show ?thesis by blast
qed

subsection \<open>Reading\<close>

text \<open>
  C3. With a session, the select policies pass every row of \<open>profiles\<close> and of \<open>savings\<close>,
  whoever owns it, and after \<open>loadData\<close> the component holds exactly the rows of the two
  tables (each saving's amount read as a number), none filtered out.
\<close>

theorem reads_return_every_row:
  assumes "session w = Some u"
  shows "select_profiles (session w) (db w) = profiles_table (db w)
     \<and> select_savings (session w) (db w) = savings_table (db w)
     \<and> mset (profiles (fst (loadData supabase (st, w)))) = mset (profiles_table (db w))
     \<and> mset (savings (fst (loadData supabase (st, w))))
         = mset (map saving_of_row (savings_table (db w)))"
  using assms
  by (simp add: loadData_supabase_authenticated [OF assms] store_results_def Let_def
        split: option.splits)

theorem reads_return_every_row_witness:
  "session world_2 = Some ''U1''
   \<and> select_savings (session world_2) (db world_2) = savings_table (db world_2)
   \<and> mset (profiles (fst (loadData supabase (initial_tracker, world_2))))
       = mset (profiles_table (db world_2))
   \<and> mset (savings (fst (loadData supabase (initial_tracker, world_2))))
       = mset (map saving_of_row (savings_table (db world_2)))"
  using reads_return_every_row [OF world_2_session, of initial_tracker] world_2_session
  by blast

text \<open>
  C9. With a session of \<open>u\<close>, \<open>loadData\<close> sends exactly three requests, in this order: the
  profiles ordered by \<open>created_at\<close>, the profile whose id is \<open>u\<close> through \<open>maybeSingle\<close>,
  and the savings ordered by \<open>created_at\<close> descending. The first answers with all profiles,
  oldest first; the second with no row or with one profile of the table whose id is \<open>u\<close>;
  the third with all savings, newest first. Where the ids of the profiles are distinct,
  as the primary key keeps them, the second read answers with the profile whose id is \<open>u\<close>
  if the table holds one and with no row only if it holds none, and that profile is what
  the component caches.
\<close>

theorem loadData_issues_three_reads:
  assumes "session w = Some u"
  shows "requests (snd (loadData supabase (st, w)))
       = requests w @ [Select_profiles_order_created_at, Select_profiles_eq_id_maybeSingle u,
                       Select_savings_order_created_at_desc]
     \<and> (\<exists>rows. fst (profiles_select_order supabase w) = Response (Some rows) None
           \<and> sorted (map profile_created_at rows) \<and> mset rows = mset (profiles_table (db w)))
     \<and> (case fst (profiles_select_eq_id_maybeSingle supabase u w) of
           Response None _ \<Rightarrow> True
         | Response (Some p) _ \<Rightarrow> profile_id p = u \<and> p \<in> set (profiles_table (db w))
         | Throws _ \<Rightarrow> False)
     \<and> (\<exists>rows. fst (savings_select_order_desc supabase w) = Response (Some rows) None
           \<and> sorted (rev (map created_at rows))
           \<and> mset rows = mset (map saving_of_row (savings_table (db w))))
     \<and> (distinct (map profile_id (profiles_table (db w))) \<longrightarrow>
          fst (profiles_select_eq_id_maybeSingle supabase u w)
            = Response (find (\<lambda>r. profile_id r = u) (profiles_table (db w))) None
          \<and> currentUser (fst (loadData supabase (st, w)))
            = (case find (\<lambda>r. profile_id r = u) (profiles_table (db w)) of
                 None \<Rightarrow> currentUser st | Some p \<Rightarrow> Some p))"
proof -
  have r: "requests (snd (loadData supabase (st, w)))
       = requests w @ [Select_profiles_order_created_at, Select_profiles_eq_id_maybeSingle u,
                       Select_savings_order_created_at_desc]"
    by (simp add: loadData_supabase_authenticated [OF assms])
  have p: "\<exists>rows. fst (profiles_select_order supabase w) = Response (Some rows) None
           \<and> sorted (map profile_created_at rows) \<and> mset rows = mset (profiles_table (db w))"
    using assms by (simp add: supabase_def)
  have own: "case fst (profiles_select_eq_id_maybeSingle supabase u w) of
           Response None _ \<Rightarrow> True
         | Response (Some p) _ \<Rightarrow> profile_id p = u \<and> p \<in> set (profiles_table (db w))
         | Throws _ \<Rightarrow> False"
    using assms maybeSingle_cases [of "filter (\<lambda>r. profile_id r = u) (profiles_table (db w))"]
    by (auto simp: supabase_def split: outcome.splits option.splits dest!: filter_singleton)
  have "created_at \<circ> saving_of_row = created_at"
    by (rule ext) (simp add: saving_of_row_def)
  then have s: "\<exists>rows. fst (savings_select_order_desc supabase w) = Response (Some rows) None
           \<and> sorted (rev (map created_at rows))
           \<and> mset rows = mset (map saving_of_row (savings_table (db w)))"
    using assms by (simp add: supabase_def rev_map [symmetric])
  from r p own s own_profile_read [OF assms] show ?thesis by blast
qed

theorem loadData_issues_three_reads_witness:
  "session world_2 = Some ''U1''
   \<and> requests (snd (loadData supabase (initial_tracker, world_2)))
       = requests world_2 @ [Select_profiles_order_created_at,
                             Select_profiles_eq_id_maybeSingle ''U1'',
                             Select_savings_order_created_at_desc]
   \<and> (\<exists>rows. fst (savings_select_order_desc supabase world_2) = Response (Some rows) None
         \<and> sorted (rev (map created_at rows))
         \<and> mset rows = mset (map saving_of_row (savings_table (db world_2))))
   \<and> distinct (map profile_id (profiles_table (db world_2)))
   \<and> fst (profiles_select_eq_id_maybeSingle supabase ''U1'' world_2)
       = Response (Some \<lparr>profile_id = ''U1'', name = ''Alice'', profile_created_at = 0\<rparr>) None
   \<and> currentUser (fst (loadData supabase (initial_tracker, world_2)))
       = Some \<lparr>profile_id = ''U1'', name = ''Alice'', profile_created_at = 0\<rparr>"
proof -
  have d: "distinct (map profile_id (profiles_table (db world_2)))"
    by (simp add: world_2_def database_2_def)
  have f: "find (\<lambda>r. profile_id r = ''U1'') (profiles_table (db world_2))
      = Some \<lparr>profile_id = ''U1'', name = ''Alice'', profile_created_at = 0\<rparr>"
    by (simp add: world_2_def database_2_def)
  from loadData_issues_three_reads [OF world_2_session, of initial_tracker] world_2_session d
  show ?thesis by (simp add: f)
qed

text \<open>
  C10. Whatever the calls answer, \<open>loadData\<close> leaves each of \<open>profiles\<close>, \<open>currentUser\<close>
  and \<open>savings\<close> either as it was or holding data that the corresponding read returned
  (data that is not null), and it does not touch the two inputs; when \<open>getUser\<close> answers
  with no user, it only clears \<open>loading\<close> and makes no further call.
\<close>

theorem loadData_never_clears:
  "(profiles (fst (loadData sb (st, w))) = profiles st
      \<or> (\<exists>w1 e w2. profiles_select_order sb w1
            = (Response (Some (profiles (fst (loadData sb (st, w))))) e, w2)))
   \<and> (currentUser (fst (loadData sb (st, w))) = currentUser st
      \<or> (\<exists>p u w1 e w2. currentUser (fst (loadData sb (st, w))) = Some p
            \<and> profiles_select_eq_id_maybeSingle sb u w1 = (Response (Some p) e, w2)))
   \<and> (savings (fst (loadData sb (st, w))) = savings st
      \<or> (\<exists>w1 e w2. savings_select_order_desc sb w1
            = (Response (Some (savings (fst (loadData sb (st, w))))) e, w2)))
   \<and> amount_input (fst (loadData sb (st, w))) = amount_input st
   \<and> description_input (fst (loadData sb (st, w))) = description_input st
   \<and> (\<forall>e w1. auth_getUser sb w = (Response None e, w1) \<longrightarrow>
          loadData sb (st, w) = (st\<lparr>loading := False\<rparr>, w1))"
proof (cases rule: loadData_cases [of sb w st])
  case (no_user e w1)
  then show ?thesis by simp
next
  case (thrown e w')
  have "\<And>e w1. auth_getUser sb w = (Response None e, w1) \<Longrightarrow>
          loadData sb (st, w) = (st\<lparr>loading := False\<rparr>, w1)"
    by (simp add: loadData_def loadData_try_def)
  with thrown show ?thesis by (simp add: console_error_def)
next
  case (loaded user e0 w1 pd e1 w2 cd e2 w3 sd e3 w4)
  have 1: "profiles (fst (loadData sb (st, w))) = profiles st
      \<or> (\<exists>w1 e w2. profiles_select_order sb w1
            = (Response (Some (profiles (fst (loadData sb (st, w))))) e, w2))"
    using loaded(2) by (cases pd) (auto simp: loaded(5) store_results_fields)
  have 2: "currentUser (fst (loadData sb (st, w))) = currentUser st
      \<or> (\<exists>p u w1 e w2. currentUser (fst (loadData sb (st, w))) = Some p
            \<and> profiles_select_eq_id_maybeSingle sb u w1 = (Response (Some p) e, w2))"
    using loaded(3) by (cases cd) (auto simp: loaded(5) store_results_fields)
  have 3: "savings (fst (loadData sb (st, w))) = savings st
      \<or> (\<exists>w1 e w2. savings_select_order_desc sb w1
            = (Response (Some (savings (fst (loadData sb (st, w))))) e, w2))"
    using loaded(4) by (cases sd) (auto simp: loaded(5) store_results_fields)
  from 1 2 3 loaded(1) show ?thesis by (simp add: loaded(5) store_results_fields)
qed

theorem loadData_never_clears_witness:
  "auth_getUser supabase world_0 = (Response None (Some Auth_session_missing), world_0)
   \<and> loadData supabase (initial_tracker, world_0) = (initial_tracker\<lparr>loading := False\<rparr>, world_0)"
proof -
  have h: "auth_getUser supabase world_0 = (Response None (Some Auth_session_missing), world_0)"
    by (simp add: supabase_def world_0_session)
  from loadData_never_clears [of supabase initial_tracker world_0] h show ?thesis by blast
qed

subsection \<open>Without an identity\<close>

lemma execute_anonymous: "step d (Statement None s) = d"
proof (cases s)
  case (Insert_saving g t v)
  then show ?thesis
    by (simp add: insert_saving_def permits_def Let_def split: option.splits)
next
  case (Update_savings c p)
  then show ?thesis
    by (simp add: update_savings_def permits_def Let_def split: sum.splits)
next
  case (Delete_savings c)
  then show ?thesis by (simp add: delete_savings_def permits_def)
next
  case (Insert_profile t v)
  then show ?thesis
    by (simp add: insert_profile_def permits_def Let_def split: option.splits)
next
  case (Update_profiles c p)
  then show ?thesis
    by (simp add: update_profiles_def permits_def Let_def split: sum.splits)
next
  case (Delete_profiles c)
  then show ?thesis by (simp add: delete_profiles_def)
qed

lemma never_loaded_dispatch:
  assumes "never_loaded x"
  shows "never_loaded (dispatch x ev)"
proof (cases x)
  case (Pair st w)
  with assms have a: "never_loaded (st, w)" by simp
  then have s: "session w = None" by (simp add: never_loaded_def)
  show ?thesis
  proof (cases ev)
    case Mounted
    with Pair a s show ?thesis by (simp add: loadData_supabase_anonymous never_loaded_def)
  next
    case (Amount_changed s)
    with Pair a show ?thesis by (simp add: never_loaded_def)
  next
    case (Description_changed s)
    with Pair a show ?thesis by (simp add: never_loaded_def)
  next
    case Form_submitted
    with Pair a show ?thesis by (simp add: handleAddSaving_noop never_loaded_def)
  next
    case (Delete_clicked i)
    with Pair a s show ?thesis
      by (simp add: handleDeleteSaving_supabase loadData_supabase_anonymous received_def
            never_loaded_def)
  next
    case (Elsewhere e)
    with Pair a show ?thesis by (simp add: never_loaded_def)
  next
    case Session_expired
    with Pair a show ?thesis by (simp add: never_loaded_def)
  qed
qed

lemma never_loaded_session: "never_loaded x \<Longrightarrow> never_loaded (foldl dispatch x evs)"
  by (induction evs arbitrary: x) (simp_all add: never_loaded_dispatch)

text \<open>
  C7, as amended. With no session, \<open>loadData\<close> sends no read, logs nothing and leaves the
  state as it is. So a component mounted without an identity shows no profile and no
  saving and caches no profile, whatever the user does, and its \<open>handleAddSaving\<close> does
  nothing; a component that holds a cached profile and an amount sends its insert all the
  same, the store refuses it, and the component only logs the refusal. The store answers
  the three reads with no row, answers every insert with the policy's error, and no
  statement of a caller without an identity changes the database.
\<close>

theorem without_identity_state_is_kept:
  assumes "session w = None"
  shows "loadData supabase (st, w) = (st\<lparr>loading := False\<rparr>, w)
     \<and> (requests w = [] \<longrightarrow> never_loaded (foldl dispatch (initial_tracker, w) evs))
     \<and> (currentUser st = None \<or> amount_input st = [] \<longrightarrow>
          handleAddSaving supabase (st, w) = (st, w))
     \<and> (currentUser st = Some cu \<and> amount_input st \<noteq> [] \<longrightarrow>
          handleAddSaving supabase (st, w)
            = (console_error ''Error adding saving:'' (Postgres Rls_violation) st,
               received (Insert_savings \<lparr>new_user_id = profile_id cu,
                           new_amount = parseFloat (amount_input st),
                           new_description = trim (description_input st)\<rparr>) w))
     \<and> fst (profiles_select_order supabase w) = Response (Some []) None
     \<and> fst (profiles_select_eq_id_maybeSingle supabase i w) = Response None None
     \<and> fst (savings_select_order_desc supabase w) = Response (Some []) None
     \<and> fst (savings_insert supabase b w) = Response None (Some (Postgres Rls_violation))
     \<and> db (snd (savings_insert supabase b w)) = db w
     \<and> db (snd (savings_delete_eq_id supabase i w)) = db w
     \<and> step d (Statement None s) = d"
proof -
  have load: "loadData supabase (st, w) = (st\<lparr>loading := False\<rparr>, w)"
    by (rule loadData_supabase_anonymous [OF assms])
  have run: "never_loaded (foldl dispatch (initial_tracker, w) evs)" if "requests w = []"
    by (rule never_loaded_session)
      (use assms that in \<open>simp add: never_loaded_def initial_tracker_def\<close>)
  have noop: "handleAddSaving supabase (st, w) = (st, w)"
    if "currentUser st = None \<or> amount_input st = []"
    using that by (rule handleAddSaving_noop)
  have refused: "handleAddSaving supabase (st, w)
            = (console_error ''Error adding saving:'' (Postgres Rls_violation) st,
               received (Insert_savings \<lparr>new_user_id = profile_id cu,
                           new_amount = parseFloat (amount_input st),
                           new_description = trim (description_input st)\<rparr>) w)"
    if "currentUser st = Some cu" and "amount_input st \<noteq> []"
    using assms that by (rule handleAddSaving_anonymous)
  have reads: "fst (profiles_select_order supabase w) = Response (Some []) None"
    "fst (profiles_select_eq_id_maybeSingle supabase i w) = Response None None"
    "fst (savings_select_order_desc supabase w) = Response (Some []) None"
    using assms by (simp_all add: supabase_def)
  have ins: "fst (savings_insert supabase b w) = Response None (Some (Postgres Rls_violation))
      \<and> db (snd (savings_insert supabase b w)) = db w"
    using assms
    by (simp add: supabase_def insert_saving_def values_of_body_def permits_def received_def Let_def
          split: option.splits)
  have del: "db (snd (savings_delete_eq_id supabase i w)) = db w"
    using assms by (simp add: supabase_def delete_savings_def permits_def received_def)
  from load run noop refused reads ins del execute_anonymous [of d s]
  show ?thesis by blast
qed

theorem without_identity_state_is_kept_witness:
  "session world_0 = None \<and> requests world_0 = []
   \<and> loadData supabase (initial_tracker, world_0) = (initial_tracker\<lparr>loading := False\<rparr>, world_0)
   \<and> loadData supabase (tracker_2, world_0) = (tracker_2\<lparr>loading := False\<rparr>, world_0)
   \<and> never_loaded (foldl dispatch (initial_tracker, world_0)
        [Mounted, Amount_changed (utf16 ''100''), Form_submitted, Delete_clicked ''S2''])
   \<and> handleAddSaving supabase (initial_tracker\<lparr>amount_input := utf16 ''100''\<rparr>, world_0)
       = (initial_tracker\<lparr>amount_input := utf16 ''100''\<rparr>, world_0)
   \<and> handleAddSaving supabase (tracker_2\<lparr>amount_input := utf16 ''5''\<rparr>, world_0)
       = (console_error ''Error adding saving:'' (Postgres Rls_violation)
            (tracker_2\<lparr>amount_input := utf16 ''5''\<rparr>),
          received (Insert_savings
            \<lparr>new_user_id = ''U1'', new_amount = Num 5, new_description = []\<rparr>) world_0)
   \<and> db (snd (savings_delete_eq_id supabase ''S2'' world_0)) = db world_0"
proof -
  let ?alice = "\<lparr>profile_id = ''U1'', name = ''Alice'', profile_created_at = 0\<rparr>"
  let ?fresh = "initial_tracker\<lparr>amount_input := utf16 ''100''\<rparr>"
  let ?stale = "tracker_2\<lparr>amount_input := utf16 ''5''\<rparr>"
  let ?evs = "[Mounted, Amount_changed (utf16 ''100''), Form_submitted, Delete_clicked ''S2'']"
  have h1: "requests world_0 = []" by (simp add: world_0_def world_2_def)
  have h2: "currentUser ?fresh = None" by (simp add: initial_tracker_def)
  have h3: "currentUser ?stale = Some ?alice" "amount_input ?stale \<noteq> []"
    by (simp_all add: tracker_2_def)
  have h4: "profile_id ?alice = ''U1''" "parseFloat (amount_input ?stale) = Num 5"
    "trim (description_input ?stale) = []"
    by (simp_all add: parseFloat_5 tracker_2_def trim_examples)
  note t = without_identity_state_is_kept [OF world_0_session]
  from t [of initial_tracker ?evs ?alice "''S2''"] h1
  have 1: "loadData supabase (initial_tracker, world_0) = (initial_tracker\<lparr>loading := False\<rparr>, world_0)"
    and 2: "never_loaded (foldl dispatch (initial_tracker, world_0) ?evs)"
    and 3: "db (snd (savings_delete_eq_id supabase ''S2'' world_0)) = db world_0"
    by blast+
  from t [of tracker_2 ?evs ?alice "''S2''"]
  have 4: "loadData supabase (tracker_2, world_0) = (tracker_2\<lparr>loading := False\<rparr>, world_0)"
    by blast
  from t [of ?fresh ?evs ?alice "''S2''"] h2
  have 5: "handleAddSaving supabase (?fresh, world_0) = (?fresh, world_0)"
    by blast
  from t [of ?stale ?evs ?alice "''S2''"] h3
  have "handleAddSaving supabase (?stale, world_0)
       = (console_error ''Error adding saving:'' (Postgres Rls_violation) ?stale,
          received (Insert_savings \<lparr>new_user_id = profile_id ?alice,
                      new_amount = parseFloat (amount_input ?stale),
                      new_description = trim (description_input ?stale)\<rparr>) world_0)"
    by blast
  then have 6: "handleAddSaving supabase (?stale, world_0)
       = (console_error ''Error adding saving:'' (Postgres Rls_violation) ?stale,
          received (Insert_savings
            \<lparr>new_user_id = ''U1'', new_amount = Num 5, new_description = []\<rparr>) world_0)"
    by (simp only: h4)
  from world_0_session h1 1 2 3 4 5 6 show ?thesis by blast
qed

text \<open>
  C7, as stated, fails once a session is lost after a load: the next \<open>loadData\<close> finds no
  identity and the component still holds the profiles and savings it had loaded, and a
  submitted amount is sent as an insert, whose refusal is logged.
\<close>

theorem lost_session_keeps_rows_and_submits:
  "session (snd (foldl dispatch (initial_tracker, world_2) [Mounted, Session_expired, Mounted])) = None
   \<and> fst (foldl dispatch (initial_tracker, world_2) [Mounted, Session_expired, Mounted]) = tracker_2
   \<and> profiles tracker_2 \<noteq> [] \<and> savings tracker_2 \<noteq> []
   \<and> session (snd (foldl dispatch (initial_tracker, world_2)
         [Mounted, Session_expired, Amount_changed (utf16 ''5''), Form_submitted])) = None
   \<and> inserts_of (requests (snd (foldl dispatch (initial_tracker, world_2)
         [Mounted, Session_expired, Amount_changed (utf16 ''5''), Form_submitted])))
       = [\<lparr>new_user_id = ''U1'', new_amount = Num 5, new_description = []\<rparr>]
   \<and> console (fst (foldl dispatch (initial_tracker, world_2)
         [Mounted, Session_expired, Amount_changed (utf16 ''5''), Form_submitted]))
       = [(''Error adding saving:'', Postgres Rls_violation)]"
proof -
  let ?w = "world_2\<lparr>requests :=
          [Select_profiles_order_created_at, Select_profiles_eq_id_maybeSingle ''U1'',
           Select_savings_order_created_at_desc], session := None\<rparr>"
  let ?st = "tracker_2\<lparr>amount_input := utf16 ''5''\<rparr>"
  have s: "session ?w = None" by simp
  have cu: "currentUser ?st = Some \<lparr>profile_id = ''U1'', name = ''Alice'', profile_created_at = 0\<rparr>"
    and a: "amount_input ?st \<noteq> []"
    by (simp_all add: tracker_2_def)
  have 1: "foldl dispatch (initial_tracker, world_2) [Mounted, Session_expired, Mounted]
      = (tracker_2, ?w)"
    by (simp add: world_2_loaded loadData_supabase_anonymous) (simp add: tracker_2_def)
  have 2: "foldl dispatch (initial_tracker, world_2)
         [Mounted, Session_expired, Amount_changed (utf16 ''5''), Form_submitted]
      = (console_error ''Error adding saving:'' (Postgres Rls_violation) ?st,
         received (Insert_savings \<lparr>new_user_id = ''U1'', new_amount = Num 5, new_description = []\<rparr>) ?w)"
    by (simp add: world_2_loaded number_input_examples handleAddSaving_anonymous [OF s cu a]
          parseFloat_5)
      (simp add: tracker_2_def trim_examples)
  show ?thesis
    unfolding 1 2
    by (simp add: tracker_2_def console_error_def received_def world_2_def)
qed

section \<open>Totals\<close>

lemma isInteger_value: "isInteger x \<Longrightarrow> x = Num (of_int (integer_value x))"
  by (cases x) auto

lemma num_add_int:
  assumes "\<bar>a + b\<bar> < 2 ^ 53"
  shows "num_add (Num (of_int a)) (Num (of_int b)) = Num (of_int (a + b))"
  using double_of_int [OF assms] by simp

lemma foldl_num_add_int:
  assumes "list_all isInteger xs" and "\<bar>a\<bar> + (\<Sum>x\<leftarrow>xs. \<bar>integer_value x\<bar>) < 2 ^ 53"
  shows "foldl (\<lambda>sum x. num_add sum (Number x)) (Num (of_int a)) xs
       = Num (of_int (a + (\<Sum>x\<leftarrow>xs. integer_value x)))"
  using assms
proof (induction xs arbitrary: a)
  case Nil
  then show ?case by simp
next
  case (Cons x xs)
  from Cons.prems(1) have x: "x = Num (of_int (integer_value x))" and xs: "list_all isInteger xs"
    by (simp_all add: isInteger_value)
  have small: "\<bar>a + integer_value x\<bar> < 2 ^ 53"
  proof -
    have "0 \<le> (\<Sum>x\<leftarrow>xs. \<bar>integer_value x\<bar>)" by (rule sum_list_nonneg) auto
    with Cons.prems(2) show ?thesis by simp
  qed
  have step: "num_add (Num (of_int a)) (Number x) = Num (of_int (a + integer_value x))"
    by (subst x) (simp only: Number_def num_add_int [OF small])
  have rest: "\<bar>a + integer_value x\<bar> + (\<Sum>x\<leftarrow>xs. \<bar>integer_value x\<bar>) < 2 ^ 53"
    using Cons.prems(2) by simp
  show ?case
    using Cons.IH [OF xs rest] by (simp add: step add.assoc)
qed

lemma sum_list_indicator_absent:
  "k \<notin> set us \<Longrightarrow> (\<Sum>u\<leftarrow>us. if k = u then c else (0::int)) = 0"
  by (induction us) auto

lemma sum_list_indicator:
  "distinct us \<Longrightarrow> k \<in> set us \<Longrightarrow> (\<Sum>u\<leftarrow>us. if k = u then c else (0::int)) = c"
  by (induction us) (auto simp: sum_list_indicator_absent)

lemma sum_list_by_key:
  assumes "distinct us" and "key ` set xs \<subseteq> set us"
  shows "(\<Sum>u\<leftarrow>us. \<Sum>x\<leftarrow>filter (\<lambda>x. key x = u) xs. f x) = (\<Sum>x\<leftarrow>xs. (f x :: int))"
  using assms(2)
proof (induction xs)
  case Nil
  then show ?case by (simp add: sum_list_0)
next
  case (Cons y ys)
  have "(\<Sum>u\<leftarrow>us. \<Sum>x\<leftarrow>filter (\<lambda>x. key x = u) (y # ys). f x)
      = (\<Sum>u\<leftarrow>us. (if key y = u then f y else 0) + (\<Sum>x\<leftarrow>filter (\<lambda>x. key x = u) ys. f x))"
    by (intro arg_cong [where f = sum_list] map_cong) auto
  also have "\<dots> = (\<Sum>u\<leftarrow>us. if key y = u then f y else 0)
      + (\<Sum>u\<leftarrow>us. \<Sum>x\<leftarrow>filter (\<lambda>x. key x = u) ys. f x)"
    by (simp add: sum_list_addf)
  also have "\<dots> = f y + (\<Sum>x\<leftarrow>ys. f x)"
    using Cons assms(1) by (simp add: sum_list_indicator)
  finally show ?case by simp
qed

lemma sum_list_abs_filter_le:
  "(\<Sum>x\<leftarrow>filter P xs. \<bar>f x :: int\<bar>) \<le> (\<Sum>x\<leftarrow>xs. \<bar>f x\<bar>)"
  by (induction xs) auto

lemma sum_of_whole_amounts:
  assumes "list_all (\<lambda>s. isInteger (amount s)) S"
    and "(\<Sum>s\<leftarrow>S. \<bar>integer_value (amount s)\<bar>) < 2 ^ 53"
  shows "foldl (\<lambda>sum saving. num_add sum (Number (amount saving))) (Num 0) S
       = Num (of_int (\<Sum>s\<leftarrow>S. integer_value (amount s)))"
proof -
  have "foldl (\<lambda>sum saving. num_add sum (Number (amount saving))) (Num 0) S
      = foldl (\<lambda>sum x. num_add sum (Number x)) (Num (of_int 0)) (map amount S)"
    by (simp add: foldl_map)
  also have "\<dots> = Num (of_int (0 + (\<Sum>x\<leftarrow>map amount S. integer_value x)))"
    using assms by (intro foldl_num_add_int) (simp_all add: list_all_iff comp_def)
  finally show ?thesis by (simp add: comp_def)
qed

text \<open>
  C5, as amended. When every amount is a whole number and the magnitudes of the amounts
  add up to less than \<open>2 ^ 53\<close>, \<open>calculateTotal\<close> is the exact sum of the amounts, and
  adding \<open>calculateUserTotal\<close> over the distinct \<open>user_id\<close>s of the list gives the same
  number.
\<close>

theorem totals_partition_for_whole_amounts:
  assumes "list_all (\<lambda>s. isInteger (amount s)) (savings st)"
    and "(\<Sum>s\<leftarrow>savings st. \<bar>integer_value (amount s)\<bar>) < 2 ^ 53"
  shows "calculateTotal st = Num (of_int (\<Sum>s\<leftarrow>savings st. integer_value (amount s)))
     \<and> sum_numbers (map (calculateUserTotal st) (remdups (map user_id (savings st))))
         = calculateTotal st"
proof -
  define S where "S = savings st"
  define g where "g = (\<lambda>s :: number saving. integer_value (amount s))"
  define us where "us = remdups (map user_id S)"
  define h where "h = (\<lambda>u. \<Sum>s\<leftarrow>filter (\<lambda>s. user_id s = u) S. g s)"
  have whole: "list_all (\<lambda>s. isInteger (amount s)) S"
    and small: "(\<Sum>s\<leftarrow>S. \<bar>g s\<bar>) < 2 ^ 53"
    using assms by (simp_all add: S_def g_def)
  have total: "calculateTotal st = Num (of_int (\<Sum>s\<leftarrow>S. g s))"
    unfolding calculateTotal_def S_def [symmetric] g_def
    using whole small [unfolded g_def] by (rule sum_of_whole_amounts)
  have user: "calculateUserTotal st u = Num (of_int (h u))" for u
  proof -
    have "list_all (\<lambda>s. isInteger (amount s)) (filter (\<lambda>s. user_id s = u) S)"
      using whole by (simp add: list_all_iff)
    moreover have "(\<Sum>s\<leftarrow>filter (\<lambda>s. user_id s = u) S. \<bar>integer_value (amount s)\<bar>) < 2 ^ 53"
      using sum_list_abs_filter_le [where P = "\<lambda>s. user_id s = u" and f = g and xs = S] small by (simp add: g_def)
    ultimately show ?thesis
      unfolding calculateUserTotal_def S_def [symmetric] h_def g_def
      by (rule sum_of_whole_amounts)
  qed
  have user_fun: "calculateUserTotal st = (\<lambda>u. Num (of_int (h u)))"
    by (rule ext) (rule user)
  have dist: "distinct us" and keys: "user_id ` set S \<subseteq> set us"
    by (simp_all add: us_def)
  have bound: "(\<Sum>u\<leftarrow>us. \<bar>h u\<bar>) < 2 ^ 53"
  proof -
    have abs_sum: "\<bar>sum_list (map g F)\<bar> \<le> (\<Sum>s\<leftarrow>F. \<bar>g s\<bar>)" for F
      using sum_list_abs [of "map g F"] by (simp add: comp_def)
    have "(\<Sum>u\<leftarrow>us. \<bar>h u\<bar>) \<le> (\<Sum>u\<leftarrow>us. \<Sum>s\<leftarrow>filter (\<lambda>s. user_id s = u) S. \<bar>g s\<bar>)"
      unfolding h_def using abs_sum by (intro sum_list_mono) simp
    also have "\<dots> = (\<Sum>s\<leftarrow>S. \<bar>g s\<bar>)"
      using dist keys by (rule sum_list_by_key)
    finally show ?thesis using small by simp
  qed
  have "sum_numbers (map (calculateUserTotal st) us)
      = foldl (\<lambda>sum x. num_add sum (Number x)) (Num (of_int 0)) (map (\<lambda>u. Num (of_int (h u))) us)"
    by (simp add: sum_numbers_def Number_def user_fun)
  also have "\<dots> = Num (of_int (0 + (\<Sum>x\<leftarrow>map (\<lambda>u. Num (of_int (h u))) us. integer_value x)))"
    using bound by (intro foldl_num_add_int) (simp_all add: list_all_iff comp_def)
  also have "\<dots> = Num (of_int (\<Sum>u\<leftarrow>us. h u))"
    by (simp add: comp_def)
  also have "(\<Sum>u\<leftarrow>us. h u) = (\<Sum>s\<leftarrow>S. g s)"
    unfolding h_def using dist keys by (rule sum_list_by_key)
  finally have "sum_numbers (map (calculateUserTotal st) us) = calculateTotal st"
    by (simp add: total)
  with total show ?thesis
    by (simp add: S_def g_def us_def)
qed

theorem totals_partition_for_whole_amounts_witness:
  "list_all (\<lambda>s. isInteger (amount s)) (savings tracker_2)
   \<and> (\<Sum>s\<leftarrow>savings tracker_2. \<bar>integer_value (amount s)\<bar>) < 2 ^ 53
   \<and> calculateTotal tracker_2 = Num 125
   \<and> sum_numbers (map (calculateUserTotal tracker_2) (remdups (map user_id (savings tracker_2))))
       = calculateTotal tracker_2"
proof -
  have h1: "list_all (\<lambda>s. isInteger (amount s)) (savings tracker_2)"
    by (simp add: tracker_2_def)
  have h2: "(\<Sum>s\<leftarrow>savings tracker_2. \<bar>integer_value (amount s)\<bar>) < 2 ^ 53"
    by (simp add: tracker_2_def)
  have h3: "(\<Sum>s\<leftarrow>savings tracker_2. integer_value (amount s)) = 125"
    by (simp add: tracker_2_def)
  from totals_partition_for_whole_amounts [OF h1 h2] h1 h2 show ?thesis
    by (simp add: h3)
qed

text \<open>
  The sums of the third history, addition by addition: the total is
  \<open>(0.1 + 0.2) + 0.3\<close>, the subtotals add up to \<open>0.1 + (0.2 + 0.3)\<close>.
\<close>

lemma tenth_alone: "double_of (3602879701896397 / 2 ^ 55) = Num (3602879701896397 / 2 ^ 55)"
  by (rule double_of_normal [where e = "- 4" and m = 7205759403792794, THEN trans])
    (simp_all add: rounding)

lemma tenth_plus_fifth: "double_of (3602879701896397 / 2 ^ 55 + 3602879701896397 / 2 ^ 54) = Num (5404319552844596 / 2 ^ 54)"
  by (rule double_of_normal [where e = "- 2" and m = 5404319552844596, THEN trans])
    (simp_all add: rounding)

lemma tenths_plus_three: "double_of (5404319552844596 / 2 ^ 54 + 5404319552844595 / 2 ^ 54) = Num (5404319552844596 / 2 ^ 53)"
  by (rule double_of_normal [where e = "- 1" and m = 5404319552844596, THEN trans])
    (simp_all add: rounding)

lemma fifth_alone: "double_of (3602879701896397 / 2 ^ 54) = Num (3602879701896397 / 2 ^ 54)"
  by (rule double_of_normal [where e = "- 3" and m = 7205759403792794, THEN trans])
    (simp_all add: rounding)

lemma fifth_plus_three: "double_of (3602879701896397 / 2 ^ 54 + 5404319552844595 / 2 ^ 54) = Num (1 / 2)"
  by (rule double_of_normal [where e = "- 1" and m = "2 ^ 52", THEN trans])
    (simp_all add: rounding)

lemma tenth_plus_half: "double_of (3602879701896397 / 2 ^ 55 + 1 / 2) = Num (5404319552844595 / 2 ^ 53)"
  by (rule double_of_normal [where e = "- 1" and m = 5404319552844595, THEN trans])
    (simp_all add: rounding)

lemmas tenths =
  tenth_alone [simplified] tenth_plus_fifth [simplified] tenths_plus_three [simplified]
  fifth_alone [simplified] fifth_plus_three [simplified] tenth_plus_half [simplified]

lemma tracker_3_total: "calculateTotal tracker_3 = Num (5404319552844596 / 2 ^ 53)"
  by (simp add: calculateTotal_def tracker_3_def Number_def tenths)

lemma tracker_3_by_user:
  "sum_numbers (map (calculateUserTotal tracker_3) (remdups (map user_id (savings tracker_3))))
     = Num (5404319552844595 / 2 ^ 53)"
  by (simp add: sum_numbers_def calculateUserTotal_def tracker_3_def Number_def tenths)

lemma tracker_3_subtotals:
  "calculateUserTotal tracker_3 ''U1'' = Num (3602879701896397 / 2 ^ 55)"
  "calculateUserTotal tracker_3 ''U2'' = Num (1 / 2)"
  by (simp_all add: calculateUserTotal_def tracker_3_def Number_def tenths)

text \<open>
  C5, as stated, fails where additions round: for the component that has loaded the
  third history the total and the sum of the two subtotals differ in the last bit
  (0.6000000000000001 against 0.6), whether the subtotals are added as numbers or exactly.
\<close>

theorem totals_differ_for_tenths:
  "calculateTotal tracker_3
     \<noteq> sum_numbers (map (calculateUserTotal tracker_3) (remdups (map user_id (savings tracker_3))))
   \<and> (\<exists>a b. calculateUserTotal tracker_3 ''U1'' = Num a
          \<and> calculateUserTotal tracker_3 ''U2'' = Num b
          \<and> calculateTotal tracker_3 \<noteq> Num (a + b))"
proof -
  have 1: "calculateTotal tracker_3
     \<noteq> sum_numbers (map (calculateUserTotal tracker_3) (remdups (map user_id (savings tracker_3))))"
    unfolding tracker_3_total tracker_3_by_user by simp
  have 2: "calculateTotal tracker_3 \<noteq> Num (3602879701896397 / 2 ^ 55 + 1 / 2)"
    unfolding tracker_3_total by simp
  from 1 2 tracker_3_subtotals show ?thesis by blast
qed

section \<open>Submitting the form\<close>

lemma insert_saving_not_positive:
  assumes "\<forall>x. new_amount b = Num x \<longrightarrow> x \<le> 0"
  shows "\<exists>e. insert_saving caller g t (values_of_body b) d = Inl e"
proof (cases "insert_saving caller g t (values_of_body b) d")
  case (Inl e)
  then show ?thesis by blast
next
  case (Inr d')
  from insert_saving_needs_positive_amount [OF this]
  obtain a where "numeric_of_number (new_amount b) = Some a" and "0 < a"
    by (auto simp: values_of_body_def)
  with assms show ?thesis by (cases "new_amount b") auto
qed

text \<open>
  C6, as amended. \<open>handleAddSaving\<close> calls nothing and changes nothing when no profile
  is cached or the amount cell is empty, and empty is what the number field reports for
  anything that is not a number: a value it reports that is not empty never parses to
  \<open>NaN\<close>. With a cached profile and an amount that is not empty the component sends
  exactly one insert, with the cached profile's id, \<open>parseFloat\<close> of the amount and the
  trimmed description; when the amount parses to zero or to a negative number the store
  refuses that insert, and the component only logs the error: the database and every cell
  of the state, the two inputs included, stay as they were, and nothing more is sent.
\<close>

theorem handleAddSaving_sends_unless_blank:
  "(currentUser st = None \<or> amount_input st = [] \<longrightarrow> handleAddSaving sb (st, w) = (st, w))
   \<and> (number_input_value s \<noteq> [] \<longrightarrow> parseFloat (number_input_value s) \<noteq> NaN)
   \<and> (currentUser st = Some cu \<and> amount_input st \<noteq> [] \<longrightarrow>
        inserts_of (requests (snd (handleAddSaving supabase (st, v))))
          = inserts_of (requests v)
            @ [\<lparr>new_user_id = profile_id cu, new_amount = parseFloat (amount_input st),
                new_description = trim (description_input st)\<rparr>])
   \<and> (currentUser st = Some cu \<and> amount_input st \<noteq> []
        \<and> parseFloat (amount_input st) = Num x \<and> x \<le> 0 \<longrightarrow>
        (\<exists>e. handleAddSaving supabase (st, v)
           = (console_error ''Error adding saving:'' e st,
              received (Insert_savings \<lparr>new_user_id = profile_id cu,
                          new_amount = parseFloat (amount_input st),
                          new_description = trim (description_input st)\<rparr>) v)))"
proof -
  let ?b = "\<lparr>new_user_id = profile_id cu, new_amount = parseFloat (amount_input st),
              new_description = trim (description_input st)\<rparr>"
  let ?r = "insert_saving (session v) (uuid_supply v (clock v)) (clock v) (values_of_body ?b) (db v)"
  have field: "parseFloat (number_input_value s) \<noteq> NaN" if "number_input_value s \<noteq> []"
  proof -
    from that have "valid_floating_point_number s"
      by (simp add: number_input_value_def split: if_splits)
    then show ?thesis
      by (simp add: number_input_value_def valid_number_parses)
  qed
  have sent: "inserts_of (requests (snd (handleAddSaving supabase (st, v))))
          = inserts_of (requests v) @ [?b]"
    if "currentUser st = Some cu" and "amount_input st \<noteq> []"
    using that by (rule handleAddSaving_supabase_inserts)
  have refused: "\<exists>e. handleAddSaving supabase (st, v)
                = (console_error ''Error adding saving:'' e st, received (Insert_savings ?b) v)"
    if cu: "currentUser st = Some cu" and a: "amount_input st \<noteq> []"
      and n: "parseFloat (amount_input st) = Num x" "x \<le> 0"
  proof -
    from n have "\<forall>y. new_amount ?b = Num y \<longrightarrow> y \<le> 0" by simp
    from insert_saving_not_positive [OF this] obtain e where "?r = Inl e" by blast
    then have "handleAddSaving supabase (st, v)
        = (console_error ''Error adding saving:'' (Postgres e) st, received (Insert_savings ?b) v)"
      by (simp add: handleAddSaving_supabase [OF cu a])
    then show ?thesis by blast
  qed
  from field sent refused handleAddSaving_noop [of st sb w] show ?thesis by blast
qed

theorem handleAddSaving_sends_unless_blank_witness:
  "handleAddSaving supabase (tracker_2, world_2) = (tracker_2, world_2)
   \<and> number_input_value (utf16 ''abc'') = []
   \<and> number_input_value (utf16 ''-10'') \<noteq> []
   \<and> parseFloat (number_input_value (utf16 ''-10'')) \<noteq> NaN
   \<and> inserts_of (requests (snd (handleAddSaving supabase
          (tracker_2\<lparr>amount_input := utf16 ''0''\<rparr>, world_2))))
       = [\<lparr>new_user_id = ''U1'', new_amount = Num 0, new_description = []\<rparr>]
   \<and> (\<exists>e. handleAddSaving supabase (tracker_2\<lparr>amount_input := utf16 ''0''\<rparr>, world_2)
         = (console_error ''Error adding saving:'' e (tracker_2\<lparr>amount_input := utf16 ''0''\<rparr>),
            received (Insert_savings
              \<lparr>new_user_id = ''U1'', new_amount = Num 0, new_description = []\<rparr>) world_2))"
proof -
  let ?alice = "\<lparr>profile_id = ''U1'', name = ''Alice'', profile_created_at = 0\<rparr>"
  let ?st = "tracker_2\<lparr>amount_input := utf16 ''0''\<rparr>"
  have h1: "amount_input tracker_2 = []" by (simp add: tracker_2_def)
  have h2: "currentUser ?st = Some ?alice" "amount_input ?st \<noteq> []"
    by (simp_all add: tracker_2_def)
  have h3: "parseFloat (amount_input ?st) = Num 0" "(0::rat) \<le> 0"
    by (simp_all add: parseFloat_0)
  have h4: "profile_id ?alice = ''U1''" "trim (description_input ?st) = []"
    "inserts_of (requests world_2) = []"
    by (simp_all add: tracker_2_def trim_examples world_2_def)
  have h5: "number_input_value (utf16 ''abc'') = []" "number_input_value (utf16 ''-10'') \<noteq> []"
    by (simp_all add: number_input_examples)
  from handleAddSaving_sends_unless_blank [of tracker_2 supabase world_2] h1
  have 1: "handleAddSaving supabase (tracker_2, world_2) = (tracker_2, world_2)"
    by blast
  from handleAddSaving_sends_unless_blank [of tracker_2 supabase world_2 "utf16 ''-10''"] h5
  have 2: "parseFloat (number_input_value (utf16 ''-10'')) \<noteq> NaN"
    by blast
  from handleAddSaving_sends_unless_blank [of ?st supabase world_2 "utf16 ''-10''" ?alice world_2 0]
    h2 h3
  have "inserts_of (requests (snd (handleAddSaving supabase (?st, world_2))))
          = inserts_of (requests world_2)
            @ [\<lparr>new_user_id = profile_id ?alice, new_amount = parseFloat (amount_input ?st),
                new_description = trim (description_input ?st)\<rparr>]"
    and "\<exists>e. handleAddSaving supabase (?st, world_2)
           = (console_error ''Error adding saving:'' e ?st,
              received (Insert_savings \<lparr>new_user_id = profile_id ?alice,
                          new_amount = parseFloat (amount_input ?st),
                          new_description = trim (description_input ?st)\<rparr>) world_2)"
    by blast+
  then have 3: "inserts_of (requests (snd (handleAddSaving supabase (?st, world_2))))
       = [\<lparr>new_user_id = ''U1'', new_amount = Num 0, new_description = []\<rparr>]"
    and 4: "\<exists>e. handleAddSaving supabase (?st, world_2)
         = (console_error ''Error adding saving:'' e ?st,
            received (Insert_savings
              \<lparr>new_user_id = ''U1'', new_amount = Num 0, new_description = []\<rparr>) world_2)"
    by (simp_all only: h3 h4 append_Nil)
  from 1 2 3 4 h5 show ?thesis by blast
qed

text \<open>
  C6, as stated, fails: with a cached profile and the input \<open>-10\<close>, which parses to
  \<open>-10\<close>, the component does send the insert; it is the store's check that refuses it.
\<close>

theorem negative_amount_is_submitted:
  "parseFloat (utf16 ''-10'') = Num (- 10)
   \<and> requests (snd (handleAddSaving supabase (tracker_2\<lparr>amount_input := utf16 ''-10''\<rparr>, world_2)))
      = [Insert_savings \<lparr>new_user_id = ''U1'', new_amount = Num (- 10), new_description = []\<rparr>]
   \<and> fst (handleAddSaving supabase (tracker_2\<lparr>amount_input := utf16 ''-10''\<rparr>, world_2))
      = console_error ''Error adding saving:'' (Postgres Check_violation)
          (tracker_2\<lparr>amount_input := utf16 ''-10''\<rparr>)"
proof -
  have cu: "currentUser (tracker_2\<lparr>amount_input := utf16 ''-10''\<rparr>)
      = Some \<lparr>profile_id = ''U1'', name = ''Alice'', profile_created_at = 0\<rparr>"
    and a: "amount_input (tracker_2\<lparr>amount_input := utf16 ''-10''\<rparr>) \<noteq> []"
    by (simp_all add: tracker_2_def)
  show ?thesis
    by (simp add: handleAddSaving_supabase [OF cu a] parseFloat_minus_10)
      (simp add: tracker_2_def world_2_def database_2_def trim_def values_of_body_def
        insert_saving_def permits_def insert_own_savings_def received_def)
qed

section \<open>Failures\<close>

text \<open>
  What \<open>loadData\<close> and \<open>handleAddSaving\<close> do with a failure: a read that throws is
  logged and leaves the state as it was, an insert that comes back with an error is logged
  and leaves the state as it was, but a read that comes back with an error is dropped.
\<close>

lemma thrown_read_failure_is_logged:
  assumes "auth_getUser sb w = (Response (Some u) e0, w1)"
    and "profiles_select_order sb w1 = (Throws e, w2)"
  shows "loadData sb (st, w) = ((console_error ''Error loading data:'' e st)\<lparr>loading := False\<rparr>, w2)"
  using assms by (simp add: loadData_def loadData_try_def)

lemma returned_read_error_is_dropped:
  assumes "auth_getUser sb w = (Response (Some u) e0, w1)"
    and "profiles_select_order sb w1 = (Response None (Some e1), w2)"
    and "profiles_select_eq_id_maybeSingle sb u w2 = (Response None (Some e2), w3)"
    and "savings_select_order_desc sb w3 = (Response None (Some e3), w4)"
  shows "loadData sb (st, w) = (st\<lparr>loading := False\<rparr>, w4)"
  using assms by (simp add: loadData_def loadData_try_def store_results_def)

lemma write_failure_is_logged:
  assumes "currentUser st = Some cu" and "amount_input st \<noteq> []"
    and "savings_insert sb \<lparr>new_user_id = profile_id cu, new_amount = parseFloat (amount_input st),
            new_description = trim (description_input st)\<rparr> w = (Response d (Some e), w1)"
  shows "handleAddSaving sb (st, w) = (console_error ''Error adding saving:'' e st, w1)"
  using assms by (simp add: handleAddSaving_def)

text \<open>
  C8. When the three reads resolve with an error instead of throwing, \<open>loadData\<close> writes
  nothing to the console: the state and the backend are exactly as before.
\<close>

theorem read_errors_are_not_logged:
  "loadData unanswered_reads (tracker_2, world_2) = (tracker_2, world_2)
   \<and> console (fst (loadData unanswered_reads (tracker_2, world_2))) = []"
  by (simp add: loadData_def loadData_try_def unanswered_reads_def supabase_def world_2_def
        store_results_def tracker_2_def)

end
